theory Spec2Isabelle
  imports Main "HOL-Library.AList"
begin

section \<open>Values of the program\<close>

text \<open>
  The two servers, \<^verbatim>\<open>src/api/server.py\<close> (suffix \<open>_api\<close> below) and
  \<^verbatim>\<open>src/server.py\<close> (suffix \<open>_srv\<close>), are embedded as functions that
  pass an explicit world: the account at the code-hosting service, the evaluation
  endpoint, the clock and a trace of every call that leaves the process.

  A Python \<^verbatim>\<open>str\<close> is represented by its UTF-8 bytes, and \<^verbatim>\<open>bytes\<close> by
  a list of 8-bit characters, so \<^verbatim>\<open>str.encode()\<close> is the identity and
  \<^verbatim>\<open>bytes.decode()\<close> is a validity check. Python's unbounded \<^verbatim>\<open>int\<close> is
  \<^typ>\<open>int\<close>. Logging is not modelled, and \<^verbatim>\<open>g.get_user()\<close>,
  \<^verbatim>\<open>user.login\<close> and \<^verbatim>\<open>repo.html_url\<close> are reads of data the client
  already holds, not calls of their own.
\<close>

type_synonym bytes = string

datatype exn =
    RuntimeError string
  | GithubException
  | Base64Error
  | UnicodeDecodeError

datatype jval = JStr string | JInt int | JCommit nat

type_synonym json = "(string \<times> jval) list"

record attachment =
  filename :: string
  content :: string
  mime_type :: "string option"

record request_payload =
  email :: string
  secret :: string
  task :: string
  round_index :: int
  nonce :: string
  brief :: string
  checks :: "string list"
  evaluation_url :: string
  attachments :: "attachment list"

record response =
  status_code :: nat
  body :: json

section \<open>Library functions the code calls\<close>

subsection \<open>Formatting an integer in an f-string\<close>

function str_nat :: "nat \<Rightarrow> string" where
  "str_nat n =
     (if n < 10 then [char_of (48 + n)]
      else str_nat (n div 10) @ [char_of (48 + n mod 10)])"
  by pat_completeness auto
termination
  by (relation "measure (\<lambda>n. n)") auto

declare str_nat.simps [simp del]

definition str_int :: "int \<Rightarrow> string" where
  "str_int i = (if i < 0 then CHR ''-'' # str_nat (nat (- i)) else str_nat (nat i))"

subsection \<open>\<^verbatim>\<open>base64.b64decode(s)\<close> with its default arguments\<close>

text \<open>
  \<^verbatim>\<open>base64.b64decode(s)\<close> is \<^verbatim>\<open>binascii.a2b_base64(s)\<close> in its non-strict
  mode (CPython 3.11): characters outside the alphabet are skipped, a pad character
  ends the input once it completes a quad, and leftover characters of an
  incomplete quad raise \<^verbatim>\<open>binascii.Error\<close>.
\<close>

definition table_a2b_base64 :: "char \<Rightarrow> nat option" where
  "table_a2b_base64 c =
     (let n = (of_char c :: nat) in
      if 65 \<le> n \<and> n \<le> 90 then Some (n - 65)
      else if 97 \<le> n \<and> n \<le> 122 then Some (n - 71)
      else if 48 \<le> n \<and> n \<le> 57 then Some (n + 4)
      else if n = 43 then Some 62
      else if n = 47 then Some 63
      else None)"

text \<open>
  The loop of \<^verbatim>\<open>a2b_base64\<close>: \<open>q\<close> is \<^verbatim>\<open>quad_pos\<close>, \<open>l\<close> is
  \<^verbatim>\<open>leftchar\<close>, \<open>p\<close> is \<^verbatim>\<open>pads\<close> and \<open>out\<close> the bytes produced so far,
  newest first.
\<close>

fun a2b_base64 :: "string \<Rightarrow> nat \<Rightarrow> nat \<Rightarrow> nat \<Rightarrow> bytes \<Rightarrow> exn + bytes" where
  "a2b_base64 [] q l p out = (if q \<noteq> 0 then Inl Base64Error else Inr (rev out))"
| "a2b_base64 (c # cs) q l p out =
     (if c = CHR ''='' then
        (if 2 \<le> q \<and> 4 \<le> q + (p + 1) then Inr (rev out)
         else a2b_base64 cs q l (if 2 \<le> q then p + 1 else p) out)
      else
        (case table_a2b_base64 c of
           None \<Rightarrow> a2b_base64 cs q l p out
         | Some v \<Rightarrow>
             (if q = 0 then a2b_base64 cs 1 v 0 out
              else if q = 1 then
                a2b_base64 cs 2 (v mod 16) 0 (char_of (l * 4 + v div 16) # out)
              else if q = 2 then
                a2b_base64 cs 3 (v mod 4) 0 (char_of (l * 16 + v div 4) # out)
              else
                a2b_base64 cs 0 0 0 (char_of (l * 64 + v) # out))))"

definition b64decode :: "string \<Rightarrow> exn + bytes" where
  "b64decode s = a2b_base64 s 0 0 0 []"

subsection \<open>\<^verbatim>\<open>bytes.decode()\<close>: strict UTF-8\<close>

definition cont_byte :: "nat \<Rightarrow> bool" where
  "cont_byte b = (128 \<le> b \<and> b \<le> 191)"

fun utf8_valid :: "nat list \<Rightarrow> bool" where
  "utf8_valid [] = True"
| "utf8_valid (b # bs) =
     (if b < 128 then utf8_valid bs
      else if 194 \<le> b \<and> b \<le> 223 then
        (case bs of c1 # r \<Rightarrow> cont_byte c1 \<and> utf8_valid r | _ \<Rightarrow> False)
      else if 224 \<le> b \<and> b \<le> 239 then
        (case bs of
           c1 # c2 # r \<Rightarrow>
             (if b = 224 then 160 \<le> c1 \<and> c1 \<le> 191
              else if b = 237 then 128 \<le> c1 \<and> c1 \<le> 159
              else cont_byte c1)
             \<and> cont_byte c2 \<and> utf8_valid r
         | _ \<Rightarrow> False)
      else if 240 \<le> b \<and> b \<le> 244 then
        (case bs of
           c1 # c2 # c3 # r \<Rightarrow>
             (if b = 240 then 144 \<le> c1 \<and> c1 \<le> 191
              else if b = 244 then 128 \<le> c1 \<and> c1 \<le> 143
              else cont_byte c1)
             \<and> cont_byte c2 \<and> cont_byte c3 \<and> utf8_valid r
         | _ \<Rightarrow> False)
      else False)"

definition decode :: "bytes \<Rightarrow> exn + string" where
  "decode bs = (if utf8_valid (map of_char bs) then Inr bs else Inl UnicodeDecodeError)"

section \<open>The world outside the process\<close>

text \<open>
  The code-hosting service (reached through PyGithub) and the evaluation endpoint are
  external collaborators. The hosting service is modelled as an account holding
  repositories; each repository is a table of files and a history of commits, newest
  first. The version token of a file (its blob sha) is represented by its content, and
  the id of a commit by its position in the history.
\<close>

datatype commit = Commit string string bytes

record repository =
  files :: "(string \<times> bytes) list"
  is_private :: bool
  commits :: "commit list"

datatype http_outcome = Status nat | TransportError

text \<open>
  Every call that leaves the process is recorded with its arguments and its outcome.
  An \<open>Http_post\<close> records the request as sent: url, JSON body, headers and the
  timeout in seconds (\<open>None\<close>: the client waits without limit).
\<close>

datatype event =
    Get_repo string bool
  | Create_repo string bool bool
  | Get_contents string string bool
  | Update_file string string string bytes bytes bool
  | Create_file string string string bytes bool
  | Get_commits string bool
  | Http_post string json "(string \<times> string) list" "nat option" http_outcome
  | Sleep nat

text \<open>
  \<open>faults\<close> injects transient failures: each hosting call consumes one flag, and a
  call whose flag is set raises without effect; an exhausted list injects none.
  \<open>endpoint\<close> gives the evaluation endpoint's answer to the \<open>posts\<close>-th POST,
  \<open>clock\<close> the text of the \<open>ticks\<close>-th reading of
  \<^verbatim>\<open>datetime.utcnow().isoformat()\<close>, and \<open>tasks\<close> the coroutines handed to
  \<^verbatim>\<open>asyncio.create_task\<close> that have not run yet.
\<close>

record world =
  login :: string
  repos :: "(string \<times> repository) list"
  faults :: "bool list"
  endpoint :: "nat \<Rightarrow> http_outcome"
  posts :: nat
  clock :: "nat \<Rightarrow> string"
  ticks :: nat
  tasks :: "(string \<times> json) list"
  trace :: "event list"

definition next_fault :: "world \<Rightarrow> bool \<times> world" where
  "next_fault w = (case faults w of [] \<Rightarrow> (False, w) | f # fs \<Rightarrow> (f, w\<lparr>faults := fs\<rparr>))"

definition emit :: "event \<Rightarrow> world \<Rightarrow> world" where
  "emit e w = w\<lparr>trace := trace w @ [e]\<rparr>"

definition utcnow :: "world \<Rightarrow> string \<times> world" where
  "utcnow w = (clock w (ticks w), w\<lparr>ticks := Suc (ticks w)\<rparr>)"

definition blob_sha :: "bytes \<Rightarrow> bytes" where
  "blob_sha c = c"

subsection \<open>Operations of the hosting service\<close>

text \<open>
  \<^verbatim>\<open>user.get_repo(name)\<close> raises when the repository is absent;
  \<^verbatim>\<open>user.create_repo(name, private=...)\<close> raises when the name is taken. A
  repository handle is the repository's name.
\<close>

definition get_repo :: "string \<Rightarrow> world \<Rightarrow> (exn + string) \<times> world" where
  "get_repo name w =
     (let (f, w1) = next_fault w in
      if \<not> f \<and> map_of (repos w1) name \<noteq> None
      then (Inr name, emit (Get_repo name True) w1)
      else (Inl GithubException, emit (Get_repo name False) w1))"

definition create_repo :: "string \<Rightarrow> bool \<Rightarrow> world \<Rightarrow> (exn + string) \<times> world" where
  "create_repo name priv w =
     (let (f, w1) = next_fault w in
      if \<not> f \<and> map_of (repos w1) name = None
      then (Inr name,
            emit (Create_repo name priv True)
              (w1\<lparr>repos := AList.update name
                   \<lparr>files = [], is_private = priv, commits = []\<rparr> (repos w1)\<rparr>))
      else (Inl GithubException, emit (Create_repo name priv False) w1))"

subsection \<open>The path of a contents request\<close>

text \<open>
  PyGithub sends every file operation to the URL path
  \<^verbatim>\<open>/repos/<owner>/<repo>/contents/<path>\<close>, and the HTTP client below it
  (\<^verbatim>\<open>requests\<close> over \<^verbatim>\<open>urllib3\<close>) removes the dot segments of that URL
  path before the request leaves: \<open>a/../b.txt\<close> is requested as \<open>b.txt\<close>, and
  \<open>../x.txt\<close> as \<^verbatim>\<open>/repos/<owner>/<repo>/x.txt\<close>, which is no contents request
  any more. \<open>split_slash\<close> is \<^verbatim>\<open>str.split("/")\<close>, \<open>join_slash\<close> is
  \<^verbatim>\<open>"/".join\<close>, and \<open>remove_path_dot_segments\<close> is the loop of urllib3's
  function of that name, run on the segments of the path with the segments of the
  route already on the output stack (the names of the account and of the repository
  are taken to be ordinary names, not dot segments).
\<close>

fun split_slash :: "string \<Rightarrow> string list" where
  "split_slash [] = [[]]"
| "split_slash (c # cs) =
     (if c = CHR ''/'' then [] # split_slash cs
      else (case split_slash cs of [] \<Rightarrow> [[c]] | s # ss \<Rightarrow> (c # s) # ss))"

fun join_slash :: "string list \<Rightarrow> string" where
  "join_slash [] = []"
| "join_slash [s] = s"
| "join_slash (s # t # ss) = s @ CHR ''/'' # join_slash (t # ss)"

fun remove_path_dot_segments :: "string list \<Rightarrow> string list \<Rightarrow> string list" where
  "remove_path_dot_segments [] output = output"
| "remove_path_dot_segments (segment # segments) output =
     (if segment = ''.'' then remove_path_dot_segments segments output
      else if segment \<noteq> ''..'' then remove_path_dot_segments segments (output @ [segment])
      else remove_path_dot_segments segments (butlast output))"

definition contents_route :: "string \<Rightarrow> string \<Rightarrow> string list" where
  "contents_route owner rn = [[], ''repos'', owner, rn, ''contents'']"

text \<open>
  The two closing steps of urllib3's function: a path that began with a slash begins
  with one again, and a path that ended in a dot segment ends in a slash.
\<close>

definition normalized_segments :: "string \<Rightarrow> string \<Rightarrow> string \<Rightarrow> string list" where
  "normalized_segments owner rn p =
     (let segments = split_slash p;
          output = remove_path_dot_segments segments (contents_route owner rn);
          output1 = (if output = [] \<or> hd output \<noteq> [] then [] # output else output)
      in if last segments = ''.'' \<or> last segments = ''..'' then output1 @ [[]] else output1)"

text \<open>
  The service side. A request whose normalised path is the contents route of the
  repository followed by a non-empty path without empty segments addresses the file
  at that path. Every other request is answered with an error in this model: this is
  what the service does for a path that has left the route for no other route
  (\<open>../x.txt\<close>: 404) and for the root of the tree, whose listing has no
  \<^verbatim>\<open>path\<close> and cannot be created; paths with an empty segment, requests that
  land on another route of the service or in another repository, and a path that
  names a directory are outside what the model describes, and the statements about
  the order and the completion of the writes are made for filenames inside it.
\<close>

definition contents_path :: "string \<Rightarrow> string \<Rightarrow> string \<Rightarrow> string option" where
  "contents_path owner rn p =
     (let output = normalized_segments owner rn p; rest = drop 5 output
      in if take 5 output = contents_route owner rn \<and> rest \<noteq> [] \<and> [] \<notin> set rest
         then Some (join_slash rest) else None)"

text \<open>
  \<^verbatim>\<open>repo.get_contents(path)\<close> returns the file's path in the repository, its
  version token and its content, and raises when the file is absent.
  \<^verbatim>\<open>repo.update_file\<close> needs the file to exist with the version token given;
  \<^verbatim>\<open>repo.create_file\<close> needs the path to be free (the service answers 422 to
  a create without a token on an existing path). A successful write adds a commit.
  \<open>write_file\<close> is the effect of a write on the repository, at a path of the tree.
\<close>

definition get_contents ::
  "string \<Rightarrow> string \<Rightarrow> world \<Rightarrow> (exn + string \<times> bytes \<times> bytes) \<times> world" where
  "get_contents rn p w =
     (let (f, w1) = next_fault w in
      case (if f then None else map_of (repos w1) rn) of
        None \<Rightarrow> (Inl GithubException, emit (Get_contents rn p False) w1)
      | Some r \<Rightarrow>
          (case contents_path (login w1) rn p of
             None \<Rightarrow> (Inl GithubException, emit (Get_contents rn p False) w1)
           | Some q \<Rightarrow>
               (case map_of (files r) q of
                  None \<Rightarrow> (Inl GithubException, emit (Get_contents rn p False) w1)
                | Some c \<Rightarrow> (Inr (q, blob_sha c, c), emit (Get_contents rn p True) w1))))"

definition write_file :: "string \<Rightarrow> string \<Rightarrow> string \<Rightarrow> bytes \<Rightarrow> world \<Rightarrow> world" where
  "write_file rn q msg c w =
     (case map_of (repos w) rn of
        None \<Rightarrow> w
      | Some r \<Rightarrow>
          w\<lparr>repos := AList.update rn
               (r\<lparr>files := AList.update q c (files r),
                  commits := Commit msg q c # commits r\<rparr>) (repos w)\<rparr>)"

definition update_file ::
  "string \<Rightarrow> string \<Rightarrow> string \<Rightarrow> bytes \<Rightarrow> bytes \<Rightarrow> world \<Rightarrow> (exn + unit) \<times> world" where
  "update_file rn p msg c sha w =
     (let (f, w1) = next_fault w in
      case (if f then None else map_of (repos w1) rn) of
        None \<Rightarrow> (Inl GithubException, emit (Update_file rn p msg c sha False) w1)
      | Some r \<Rightarrow>
          (case contents_path (login w1) rn p of
             None \<Rightarrow> (Inl GithubException, emit (Update_file rn p msg c sha False) w1)
           | Some q \<Rightarrow>
               (case map_of (files r) q of
                  None \<Rightarrow> (Inl GithubException, emit (Update_file rn p msg c sha False) w1)
                | Some old \<Rightarrow>
                    if blob_sha old = sha
                    then (Inr (),
                          emit (Update_file rn p msg c sha True) (write_file rn q msg c w1))
                    else (Inl GithubException,
                          emit (Update_file rn p msg c sha False) w1))))"

definition create_file ::
  "string \<Rightarrow> string \<Rightarrow> string \<Rightarrow> bytes \<Rightarrow> world \<Rightarrow> (exn + unit) \<times> world" where
  "create_file rn p msg c w =
     (let (f, w1) = next_fault w in
      case (if f then None else map_of (repos w1) rn) of
        None \<Rightarrow> (Inl GithubException, emit (Create_file rn p msg c False) w1)
      | Some r \<Rightarrow>
          (case contents_path (login w1) rn p of
             None \<Rightarrow> (Inl GithubException, emit (Create_file rn p msg c False) w1)
           | Some q \<Rightarrow>
               (case map_of (files r) q of
                  Some old \<Rightarrow> (Inl GithubException, emit (Create_file rn p msg c False) w1)
                | None \<Rightarrow>
                    (Inr (),
                     emit (Create_file rn p msg c True) (write_file rn q msg c w1)))))"

text \<open>
  \<^verbatim>\<open>repo.get_commits()[0].sha\<close>: the id of the newest commit; the read raises
  on a repository without commits.
\<close>

definition latest_commit :: "string \<Rightarrow> world \<Rightarrow> (exn + nat) \<times> world" where
  "latest_commit rn w =
     (let (f, w1) = next_fault w in
      case (if f then None else map_of (repos w1) rn) of
        None \<Rightarrow> (Inl GithubException, emit (Get_commits rn False) w1)
      | Some r \<Rightarrow>
          (case commits r of
             [] \<Rightarrow> (Inl GithubException, emit (Get_commits rn False) w1)
           | x # xs \<Rightarrow> (Inr (length (commits r)), emit (Get_commits rn True) w1)))"

definition html_url :: "string \<Rightarrow> world \<Rightarrow> string" where
  "html_url rn w = ''https://github.com/'' @ login w @ ''/'' @ rn"

section \<open>The repository synchronizer: \<^verbatim>\<open>init_or_update_repo\<close>\<close>

text \<open>
  Lines 52 to 61 of \<^verbatim>\<open>src/api/server.py\<close> (57 to 66 of
  \<^verbatim>\<open>src/server.py\<close>): look the repository up; a bare \<^verbatim>\<open>except\<close> takes
  any failure of the lookup as absence, creates the repository when the round is 1
  and raises \<^verbatim>\<open>RuntimeError\<close> otherwise.
\<close>

definition resolve_repo :: "string \<Rightarrow> int \<Rightarrow> world \<Rightarrow> (exn + string) \<times> world" where
  "resolve_repo task_name round w =
     (case get_repo task_name w of
        (Inr repo, w1) \<Rightarrow> (Inr repo, w1)
      | (Inl e, w1) \<Rightarrow>
          if round = 1 then create_repo task_name False w1
          else (Inl (RuntimeError
                  (''Repo '' @ task_name @ '' does not exist for round '' @ str_int round)),
                w1))"

text \<open>
  The body of the loop over the attachments (lines 64 to 72, resp. 69 to 77): decode,
  then update the file inside \<^verbatim>\<open>try\<close>; the bare \<^verbatim>\<open>except\<close> catches a
  failure of \<^verbatim>\<open>get_contents\<close> or of \<^verbatim>\<open>update_file\<close> and creates the file
  instead. The decoding and the creation are outside the \<^verbatim>\<open>try\<close>: their failure
  leaves the loop and the function.
\<close>

definition upsert_attachment :: "string \<Rightarrow> attachment \<Rightarrow> world \<Rightarrow> (exn + unit) \<times> world" where
  "upsert_attachment repo attach w =
     (case b64decode (content attach) of
        Inl e \<Rightarrow> (Inl e, w)
      | Inr c \<Rightarrow>
          (case get_contents repo (filename attach) w of
             (Inl e, w1) \<Rightarrow>
               create_file repo (filename attach) (''Add '' @ filename attach) c w1
           | (Inr (p, sha, old), w1) \<Rightarrow>
               (case update_file repo p (''Update '' @ filename attach) c sha w1 of
                  (Inr u, w2) \<Rightarrow> (Inr (), w2)
                | (Inl e, w2) \<Rightarrow>
                    create_file repo (filename attach) (''Add '' @ filename attach) c w2)))"

fun upsert_attachments :: "string \<Rightarrow> attachment list \<Rightarrow> world \<Rightarrow> (exn + unit) \<times> world" where
  "upsert_attachments repo [] w = (Inr (), w)"
| "upsert_attachments repo (attach # rest) w =
     (case upsert_attachment repo attach w of
        (Inl e, w1) \<Rightarrow> (Inl e, w1)
      | (Inr u, w1) \<Rightarrow> upsert_attachments repo rest w1)"

subsection \<open>The README, cumulative in \<^verbatim>\<open>src/api/server.py\<close>\<close>

definition round_section :: "int \<Rightarrow> string \<Rightarrow> string \<Rightarrow> string" where
  "round_section round brf ts =
     ''\<newline>\<newline>## Round '' @ str_int round @ '' Updates\<newline>'' @ brf
       @ ''\<newline>Updated: '' @ ts"

definition title_text :: "string \<Rightarrow> string" where
  "title_text task_name = ''# '' @ task_name @ ''\<newline>\<newline>''"

text \<open>
  The \<^verbatim>\<open>except\<close> branch of lines 81 to 83: the round section is appended to
  whatever \<^verbatim>\<open>readme_text\<close> holds when the exception arrives.
\<close>

definition readme_except_api ::
  "string \<Rightarrow> int \<Rightarrow> string \<Rightarrow> string \<Rightarrow> world \<Rightarrow> (exn + unit) \<times> world" where
  "readme_except_api repo round brf readme_text w =
     (let (ts, w1) = utcnow w in
      create_file repo ''README.md'' (''Add README Round '' @ str_int round)
        (readme_text @ round_section round brf ts) w1)"

definition readme_api ::
  "string \<Rightarrow> string \<Rightarrow> int \<Rightarrow> string \<Rightarrow> world \<Rightarrow> (exn + unit) \<times> world" where
  "readme_api repo task_name round brf w =
     (case get_contents repo ''README.md'' w of
        (Inl e, w1) \<Rightarrow> readme_except_api repo round brf (title_text task_name) w1
      | (Inr (p, sha, c), w1) \<Rightarrow>
          (case decode c of
             Inl e \<Rightarrow> readme_except_api repo round brf (title_text task_name) w1
           | Inr existing_readme \<Rightarrow>
               (let (ts, w2) = utcnow w1;
                    readme_text = existing_readme @ round_section round brf ts
                in case update_file repo p (''Update README for Round '' @ str_int round)
                          readme_text sha w2 of
                     (Inr u, w3) \<Rightarrow> (Inr (), w3)
                   | (Inl e, w3) \<Rightarrow> readme_except_api repo round brf readme_text w3)))"

subsection \<open>The README, replacing in \<^verbatim>\<open>src/server.py\<close>\<close>

definition readme_content_srv :: "string \<Rightarrow> string \<Rightarrow> string \<Rightarrow> string" where
  "readme_content_srv task_name brf ts =
     ''# '' @ task_name @ ''\<newline>\<newline>Brief:\<newline>'' @ brf
       @ ''\<newline>\<newline>Updated: '' @ ts"

definition readme_srv ::
  "string \<Rightarrow> string \<Rightarrow> string \<Rightarrow> world \<Rightarrow> (exn + unit) \<times> world" where
  "readme_srv repo task_name brf w =
     (let (ts, w0) = utcnow w;
          readme_content = readme_content_srv task_name brf ts
      in case get_contents repo ''README.md'' w0 of
           (Inl e, w1) \<Rightarrow> create_file repo ''README.md'' ''Add README.md'' readme_content w1
         | (Inr (p, sha, c), w1) \<Rightarrow>
             (case update_file repo p ''Update README.md'' readme_content sha w1 of
                (Inr u, w2) \<Rightarrow> (Inr (), w2)
              | (Inl e, w2) \<Rightarrow>
                  create_file repo ''README.md'' ''Add README.md'' readme_content w2))"

subsection \<open>Licence, latest commit and result\<close>

definition license_text :: string where
  "license_text = ''MIT License\<newline>\<newline>Copyright (c) ...''"

definition add_license :: "string \<Rightarrow> int \<Rightarrow> world \<Rightarrow> world" where
  "add_license repo round w =
     (if round = 1
      then snd (create_file repo ''LICENSE'' ''Add MIT License'' license_text w)
      else w)"

definition pages_url :: "string \<Rightarrow> world \<Rightarrow> string" where
  "pages_url task_name w = ''https://'' @ login w @ ''.github.io/'' @ task_name @ ''/''"

definition finish_sync ::
  "string \<Rightarrow> string \<Rightarrow> int \<Rightarrow> world \<Rightarrow> (exn + string \<times> nat \<times> string) \<times> world" where
  "finish_sync repo task_name round w =
     (case latest_commit repo (add_license repo round w) of
        (Inl e, w1) \<Rightarrow> (Inl e, w1)
      | (Inr commit_sha, w1) \<Rightarrow>
          (Inr (html_url repo w1, commit_sha, pages_url task_name w1), w1))"

text \<open>
  What follows the resolution of the repository: the loop over the attachments, the
  README, the licence and the result. \<open>init_or_update_repo\<close> is the resolution
  followed by it.
\<close>

definition sync_into_api ::
  "string \<Rightarrow> string \<Rightarrow> int \<Rightarrow> string \<Rightarrow> attachment list \<Rightarrow> world
     \<Rightarrow> (exn + string \<times> nat \<times> string) \<times> world" where
  "sync_into_api repo task_name round brf atts w =
     (case upsert_attachments repo atts w of
        (Inl e, w2) \<Rightarrow> (Inl e, w2)
      | (Inr u, w2) \<Rightarrow>
          (case readme_api repo task_name round brf w2 of
             (Inl e, w3) \<Rightarrow> (Inl e, w3)
           | (Inr u, w3) \<Rightarrow> finish_sync repo task_name round w3))"

definition init_or_update_repo_api ::
  "string \<Rightarrow> int \<Rightarrow> string \<Rightarrow> attachment list \<Rightarrow> world
     \<Rightarrow> (exn + string \<times> nat \<times> string) \<times> world" where
  "init_or_update_repo_api task_name round brf atts w =
     (case resolve_repo task_name round w of
        (Inl e, w1) \<Rightarrow> (Inl e, w1)
      | (Inr repo, w1) \<Rightarrow> sync_into_api repo task_name round brf atts w1)"

definition sync_into_srv ::
  "string \<Rightarrow> string \<Rightarrow> int \<Rightarrow> string \<Rightarrow> attachment list \<Rightarrow> world
     \<Rightarrow> (exn + string \<times> nat \<times> string) \<times> world" where
  "sync_into_srv repo task_name round brf atts w =
     (case upsert_attachments repo atts w of
        (Inl e, w2) \<Rightarrow> (Inl e, w2)
      | (Inr u, w2) \<Rightarrow>
          (case readme_srv repo task_name brf w2 of
             (Inl e, w3) \<Rightarrow> (Inl e, w3)
           | (Inr u, w3) \<Rightarrow> finish_sync repo task_name round w3))"

definition init_or_update_repo_srv ::
  "string \<Rightarrow> int \<Rightarrow> string \<Rightarrow> attachment list \<Rightarrow> world
     \<Rightarrow> (exn + string \<times> nat \<times> string) \<times> world" where
  "init_or_update_repo_srv task_name round brf atts w =
     (case resolve_repo task_name round w of
        (Inl e, w1) \<Rightarrow> (Inl e, w1)
      | (Inr repo, w1) \<Rightarrow> sync_into_srv repo task_name round brf atts w1)"

section \<open>The notification dispatchers\<close>

text \<open>
  A POST with a \<^verbatim>\<open>json=\<close> body: \<^verbatim>\<open>requests\<close> and \<^verbatim>\<open>httpx\<close> both send
  \<^verbatim>\<open>Content-Type: application/json\<close> unless the caller names a content type.
\<close>

definition json_headers :: "(string \<times> string) list \<Rightarrow> (string \<times> string) list" where
  "json_headers hs =
     (if map_of hs ''Content-Type'' = None
      then hs @ [(''Content-Type'', ''application/json'')] else hs)"

definition http_post ::
  "string \<Rightarrow> json \<Rightarrow> (string \<times> string) list \<Rightarrow> nat option \<Rightarrow> world
     \<Rightarrow> http_outcome \<times> world" where
  "http_post url js hs timeout w =
     (let r = endpoint w (posts w) in
      (r, emit (Http_post url js (json_headers hs) timeout r) (w\<lparr>posts := Suc (posts w)\<rparr>)))"

text \<open>
  \<^verbatim>\<open>post_evaluation\<close> of \<^verbatim>\<open>src/api/server.py\<close>, lines 103 to 117: the loop
  runs \<^verbatim>\<open>max_retries\<close> times; each pass posts with \<^verbatim>\<open>requests.post\<close>
  (no \<^verbatim>\<open>timeout\<close> argument), returns on status 200, and otherwise sleeps
  \<^verbatim>\<open>delay\<close> seconds and doubles it.
\<close>

fun post_evaluation_loop ::
  "nat \<Rightarrow> nat \<Rightarrow> string \<Rightarrow> json \<Rightarrow> world \<Rightarrow> bool \<times> world" where
  "post_evaluation_loop 0 delay url payload w = (False, w)"
| "post_evaluation_loop (Suc n) delay url payload w =
     (case http_post url payload [(''Content-Type'', ''application/json'')] None w of
        (r, w1) \<Rightarrow>
          if r = Status 200 then (True, w1)
          else post_evaluation_loop n (delay * 2) url payload (emit (Sleep delay) w1))"

definition post_evaluation :: "string \<Rightarrow> json \<Rightarrow> nat \<Rightarrow> world \<Rightarrow> bool \<times> world" where
  "post_evaluation url payload max_retries w = post_evaluation_loop max_retries 1 url payload w"

text \<open>
  \<^verbatim>\<open>post_evaluation_async\<close> of \<^verbatim>\<open>src/server.py\<close>, lines 105 to 114: one
  POST through \<^verbatim>\<open>httpx.AsyncClient(timeout=10)\<close>; the outcome is only logged.
\<close>

definition post_evaluation_async :: "string \<Rightarrow> json \<Rightarrow> world \<Rightarrow> world" where
  "post_evaluation_async url payload w = snd (http_post url payload [] (Some 10) w)"

text \<open>The event loop running the oldest pending coroutine.\<close>

definition run_task :: "world \<Rightarrow> world" where
  "run_task w =
     (case tasks w of
        [] \<Rightarrow> w
      | (url, payload) # rest \<Rightarrow> post_evaluation_async url payload (w\<lparr>tasks := rest\<rparr>))"

section \<open>Start-up configuration\<close>

text \<open>The environment is an association list; module-level code runs once at import.\<close>

record globals_api =
  GITHUB_TOKEN_api :: string
  SECRET_FORM :: string

record globals_srv =
  GITHUB_TOKEN_srv :: string
  VALID_SECRET :: string

definition startup_api :: "(string \<times> string) list \<Rightarrow> exn + globals_api" where
  "startup_api environ =
     (case map_of environ ''GITHUB_TOKEN'' of
        None \<Rightarrow> Inl (RuntimeError ''Set the GITHUB_TOKEN environment variable in Vercel'')
      | Some tok \<Rightarrow>
          if tok = [] then
            Inl (RuntimeError ''Set the GITHUB_TOKEN environment variable in Vercel'')
          else
            Inr \<lparr>GITHUB_TOKEN_api = tok,
                 SECRET_FORM = (case map_of environ ''SECRET_FORM'' of
                                  None \<Rightarrow> ''Ojal2'' | Some s \<Rightarrow> s)\<rparr>)"

definition startup_srv :: "(string \<times> string) list \<Rightarrow> exn + globals_srv" where
  "startup_srv environ =
     (case map_of environ ''GITHUB_TOKEN'' of
        None \<Rightarrow> Inl (RuntimeError ''Set the GITHUB_TOKEN environment variable'')
      | Some tok \<Rightarrow>
          if tok = [] then Inl (RuntimeError ''Set the GITHUB_TOKEN environment variable'')
          else Inr \<lparr>GITHUB_TOKEN_srv = tok, VALID_SECRET = ''Ojal2''\<rparr>)"

section \<open>The request handlers\<close>

text \<open>
  The handler receives the validated \<^verbatim>\<open>RequestPayload\<close>. A dictionary returned
  from a FastAPI route is sent with status 200; an exception that leaves the handler
  is the \<open>Inl\<close> result.
\<close>

definition eval_payload :: "request_payload \<Rightarrow> string \<Rightarrow> nat \<Rightarrow> string \<Rightarrow> json" where
  "eval_payload payload repo_url commit_sha pages =
     [(''email'', JStr (email payload)),
      (''task'', JStr (task payload)),
      (''round'', JInt (round_index payload)),
      (''nonce'', JStr (nonce payload)),
      (''repo_url'', JStr repo_url),
      (''commit_sha'', JCommit commit_sha),
      (''pages_url'', JStr pages)]"

definition handle_request_api ::
  "globals_api \<Rightarrow> request_payload \<Rightarrow> world \<Rightarrow> (exn + response) \<times> world" where
  "handle_request_api g payload w =
     (if secret payload \<noteq> SECRET_FORM g
      then (Inr \<lparr>status_code = 200, body = [(''error'', JStr ''Invalid secret'')]\<rparr>, w)
      else
        (case init_or_update_repo_api (task payload) (round_index payload) (brief payload)
                (attachments payload) w of
           (Inl e, w1) \<Rightarrow> (Inl e, w1)
         | (Inr (repo_url, commit_sha, pages), w1) \<Rightarrow>
             (case post_evaluation (evaluation_url payload)
                     (eval_payload payload repo_url commit_sha pages) 5 w1 of
                (ok, w2) \<Rightarrow>
                  (Inr \<lparr>status_code = 200,
                        body = [(''status'', JStr ''ok''),
                                (''repo_url'', JStr repo_url),
                                (''commit_sha'', JCommit commit_sha),
                                (''pages_url'', JStr pages)]\<rparr>,
                   w2))))"

definition handle_request_srv ::
  "globals_srv \<Rightarrow> request_payload \<Rightarrow> world \<Rightarrow> (exn + response) \<times> world" where
  "handle_request_srv g payload w =
     (if secret payload \<noteq> VALID_SECRET g
      then (Inr \<lparr>status_code = 200, body = [(''error'', JStr ''Invalid secret'')]\<rparr>, w)
      else
        (case init_or_update_repo_srv (task payload) (round_index payload) (brief payload)
                (attachments payload) w of
           (Inl e, w1) \<Rightarrow> (Inl e, w1)
         | (Inr (repo_url, commit_sha, pages), w1) \<Rightarrow>
             (Inr \<lparr>status_code = 200,
                   body = [(''status'', JStr ''ok''),
                           (''repo_url'', JStr repo_url),
                           (''commit_sha'', JCommit commit_sha),
                           (''pages_url'', JStr pages),
                           (''message'',
                            JStr ''Repo updated! Evaluation POST sent in background.'')]\<rparr>,
              w1\<lparr>tasks := tasks w1
                     @ [(evaluation_url payload,
                         eval_payload payload repo_url commit_sha pages)]\<rparr>)))"

section \<open>Observations\<close>

text \<open>
  The content of the file that a path addresses in a repository, if there is one: the
  path is resolved as a request for it would be.
\<close>

definition file_at :: "world \<Rightarrow> string \<Rightarrow> string \<Rightarrow> bytes option" where
  "file_at w rn p =
     (case map_of (repos w) rn of
        None \<Rightarrow> None
      | Some r \<Rightarrow>
          (case contents_path (login w) rn p of
             None \<Rightarrow> None
           | Some q \<Rightarrow> map_of (files r) q))"

text \<open>The events added to the trace between two worlds.\<close>

definition new_events :: "world \<Rightarrow> world \<Rightarrow> event list" where
  "new_events w w' = drop (length (trace w)) (trace w')"

fun failed_write :: "event \<Rightarrow> bool" where
  "failed_write (Update_file rn p msg c sha ok) = (\<not> ok)"
| "failed_write (Create_file rn p msg c ok) = (\<not> ok)"
| "failed_write ev = False"

fun created :: "event \<Rightarrow> bool" where
  "created (Create_file rn p msg c ok) = ok"
| "created ev = False"

fun sleeps :: "event list \<Rightarrow> nat list" where
  "sleeps [] = []"
| "sleeps (Sleep d # evs) = d # sleeps evs"
| "sleeps (ev # evs) = sleeps evs"

text \<open>The headers and the timeout of every POST of a trace, in order.\<close>

fun posts_sent :: "event list \<Rightarrow> ((string \<times> string) list \<times> nat option) list" where
  "posts_sent [] = []"
| "posts_sent (Http_post url js hs t r # evs) = (hs, t) # posts_sent evs"
| "posts_sent (ev # evs) = posts_sent evs"

fun decodable :: "attachment \<Rightarrow> bool" where
  "decodable a = (case b64decode (content a) of Inl e \<Rightarrow> False | Inr c \<Rightarrow> True)"

subsection \<open>Filenames the service stores as they come\<close>

text \<open>
  The model of the service is known to agree with it on ordinary paths: at most 255
  characters, in segments that are not empty, do not begin with a dot and consist of
  letters, digits, dots, underscores and hyphens. An attachment is \<open>storable\<close> in a
  repository when its filename resolves, dot segments removed, to such a path inside
  the contents route; a filename that is itself an ordinary path resolves to itself.
  A table of files is \<open>tree_like\<close> when no path of it is a directory of another,
  as in every tree that git can hold.
\<close>

definition ordinary_char :: "char \<Rightarrow> bool" where
  "ordinary_char c =
     (let n = (of_char c :: nat) in
      (48 \<le> n \<and> n \<le> 57) \<or> (65 \<le> n \<and> n \<le> 90) \<or> (97 \<le> n \<and> n \<le> 122)
      \<or> n = 45 \<or> n = 46 \<or> n = 95)"

definition ordinary_segment :: "string \<Rightarrow> bool" where
  "ordinary_segment s = (s \<noteq> [] \<and> hd s \<noteq> CHR ''.'' \<and> list_all ordinary_char s)"

definition ordinary_path :: "string \<Rightarrow> bool" where
  "ordinary_path q = (length q \<le> 255 \<and> list_all ordinary_segment (split_slash q))"

definition storable :: "string \<Rightarrow> string \<Rightarrow> attachment \<Rightarrow> bool" where
  "storable owner rn a =
     (case contents_path owner rn (filename a) of
        None \<Rightarrow> False
      | Some q \<Rightarrow> ordinary_path q)"

definition is_dir_of :: "string \<Rightarrow> string \<Rightarrow> bool" where
  "is_dir_of q k = (take (Suc (length q)) k = q @ ''/'')"

definition tree_like :: "(string \<times> bytes) list \<Rightarrow> bool" where
  "tree_like fs =
     (\<not> list_ex (\<lambda>q. list_ex (is_dir_of q) (map fst fs)) (map fst fs))"

text \<open>
  The commits the specification asks of the loop, oldest first: one per attachment in
  input order, writing the decoded bytes at the declared path (the path its filename
  resolves to, which is the filename itself when it has no dot segments), with message
  \<open>Update <filename>\<close> when the file existed before and \<open>Add <filename>\<close> when it
  did not. \<open>fs\<close> is the table of files before the attachment; \<open>plan_files\<close> is
  the table after all of them.
\<close>

fun upsert_plan ::
  "string \<Rightarrow> string \<Rightarrow> (string \<times> bytes) list \<Rightarrow> attachment list \<Rightarrow> commit list" where
  "upsert_plan owner rn fs [] = []"
| "upsert_plan owner rn fs (a # rest) =
     (case b64decode (content a) of
        Inl e \<Rightarrow> []
      | Inr c \<Rightarrow>
          (case contents_path owner rn (filename a) of
             None \<Rightarrow> []
           | Some q \<Rightarrow>
               Commit ((if map_of fs q = None then ''Add '' else ''Update '') @ filename a) q c
                 # upsert_plan owner rn (AList.update q c fs) rest))"

fun plan_files ::
  "string \<Rightarrow> string \<Rightarrow> (string \<times> bytes) list \<Rightarrow> attachment list
     \<Rightarrow> (string \<times> bytes) list" where
  "plan_files owner rn fs [] = fs"
| "plan_files owner rn fs (a # rest) =
     (case b64decode (content a) of
        Inl e \<Rightarrow> fs
      | Inr c \<Rightarrow>
          (case contents_path owner rn (filename a) of
             None \<Rightarrow> fs
           | Some q \<Rightarrow> plan_files owner rn (AList.update q c fs) rest))"

section \<open>Example scenarios\<close>

definition empty_account :: world where
  "empty_account =
     \<lparr>login = ''ojal'', repos = [], faults = [], endpoint = (\<lambda>n. Status 500), posts = 0,
      clock = (\<lambda>n. ''2025-10-17T09:00:00''), ticks = 0, tasks = [], trace = []\<rparr>"

definition index_html :: attachment where
  "index_html =
     \<lparr>filename = ''index.html'', content = ''PGgxPmhpPC9oMT4='', mime_type = None\<rparr>"

definition style_css :: attachment where
  "style_css = \<lparr>filename = ''style.css'', content = ''cHt9'', mime_type = None\<rparr>"


definition broken :: attachment where
  "broken = \<lparr>filename = ''b.txt'', content = ''A'', mime_type = None\<rparr>"

definition submission :: "string \<Rightarrow> int \<Rightarrow> attachment list \<Rightarrow> request_payload" where
  "submission s r atts =
     \<lparr>email = ''a@b.c'', secret = s, task = ''demo'', round_index = r, nonce = ''n1'',
      brief = ''initial'', checks = [], evaluation_url = ''https://eval.example/notify'',
      attachments = atts\<rparr>"

text \<open>An account that already holds the repository \<open>demo\<close>, with two files.\<close>

definition demo_repo :: repository where
  "demo_repo =
     \<lparr>files = [(''index.html'', ''<h1>hi</h1>''), (''README.md'', ''# demo'')],
      is_private = False,
      commits = [Commit ''Add README.md'' ''README.md'' ''# demo'',
                 Commit ''Add index.html'' ''index.html'' ''<h1>hi</h1>'']\<rparr>"

definition demo_account :: world where
  "demo_account = empty_account\<lparr>repos := [(''demo'', demo_repo)]\<rparr>"

text \<open>
  The same account when the third hosting call of the request meets a transient
  failure.
\<close>

definition faulty_account :: world where
  "faulty_account = demo_account\<lparr>faults := [False, False, True]\<rparr>"

section \<open>Basic facts about the world\<close>

subsection \<open>Paths\<close>

lemma split_slash_nonempty [simp]: "split_slash p \<noteq> []"
  by (induction p) (auto split: list.splits)

lemma split_slash_no_slash: "s \<in> set (split_slash p) \<Longrightarrow> CHR ''/'' \<notin> set s"
  by (induction p arbitrary: s) (auto split: list.splits if_splits)

lemma split_join_slash:
  "ss \<noteq> [] \<Longrightarrow> \<forall>s \<in> set ss. CHR ''/'' \<notin> set s \<Longrightarrow> split_slash (join_slash ss) = ss"
proof (induction ss rule: join_slash.induct)
  case 1
  then show ?case by simp
next
  case (2 s)
  then show ?case by (induction s) (auto split: list.splits)
next
  case (3 s t ss)
  then have ih: "split_slash (join_slash (t # ss)) = t # ss" by simp
  from "3.prems" have "CHR ''/'' \<notin> set s" by simp
  then have "split_slash (s @ CHR ''/'' # join_slash (t # ss))
               = s # split_slash (join_slash (t # ss))"
    by (induction s) (auto split: list.splits)
  with ih show ?case by simp
qed

lemma join_split_slash: "join_slash (split_slash p) = p"
proof (induction p)
  case Nil
  then show ?case by simp
next
  case (Cons c cs)
  obtain s ss where sp: "split_slash cs = s # ss"
    by (cases "split_slash cs") simp_all
  with Cons show ?case by (cases ss) auto
qed

lemma remove_dots_invariant:
  assumes "k \<le> length route"
      and "\<forall>s \<in> set pushed. CHR ''/'' \<notin> set s \<and> s \<noteq> ''.'' \<and> s \<noteq> ''..''"
      and "\<forall>s \<in> set segs. CHR ''/'' \<notin> set s"
  shows "\<exists>k' pushed'. k' \<le> length route
           \<and> remove_path_dot_segments segs (take k route @ pushed) = take k' route @ pushed'
           \<and> (\<forall>s \<in> set pushed'. CHR ''/'' \<notin> set s \<and> s \<noteq> ''.'' \<and> s \<noteq> ''..'')"
  using assms
proof (induction segs arbitrary: k pushed)
  case Nil
  then show ?case by auto
next
  case (Cons seg segs)
  show ?case
  proof (cases "seg = ''.''")
    case True
    with Cons show ?thesis by simp
  next
    case notdot: False
    show ?thesis
    proof (cases "seg = ''..''")
      case False
      with notdot Cons.prems have
        "\<forall>s \<in> set (pushed @ [seg]). CHR ''/'' \<notin> set s \<and> s \<noteq> ''.'' \<and> s \<noteq> ''..''"
        by auto
      from Cons.IH [OF Cons.prems(1) this] Cons.prems(3) notdot False show ?thesis by simp
    next
      case True
      show ?thesis
      proof (cases "pushed = []")
        case False
        then have b: "butlast (take k route @ pushed) = take k route @ butlast pushed"
          by (simp add: butlast_append)
        from Cons.prems(2) have
          "\<forall>s \<in> set (butlast pushed). CHR ''/'' \<notin> set s \<and> s \<noteq> ''.'' \<and> s \<noteq> ''..''"
          by (meson in_set_butlastD)
        from Cons.IH [OF Cons.prems(1) this] Cons.prems(3) True b show ?thesis by simp
      next
        case e: True
        have b: "butlast (take k route @ pushed) = take (k - 1) route @ []"
          using e Cons.prems(1) by (simp add: butlast_take)
        have "k - 1 \<le> length route" using Cons.prems(1) by simp
        from Cons.IH [OF this, of "[]"] Cons.prems(3) True b show ?thesis by simp
      qed
    qed
  qed
qed

lemma remove_dots_plain:
  "\<forall>s \<in> set segs. s \<noteq> ''.'' \<and> s \<noteq> ''..'' \<Longrightarrow>
   remove_path_dot_segments segs out = out @ segs"
  by (induction segs arbitrary: out) auto

lemma normalized_rest:
  assumes "s \<in> set (drop 5 (normalized_segments owner rn p))"
  shows "s = [] \<or> (CHR ''/'' \<notin> set s \<and> s \<noteq> ''.'' \<and> s \<noteq> ''..'')"
proof -
  let ?route = "contents_route owner rn"
  have len: "length ?route = 5" by (simp add: contents_route_def)
  have "\<forall>s \<in> set (split_slash p). CHR ''/'' \<notin> set s"
    using split_slash_no_slash by blast
  from remove_dots_invariant [of 5 ?route "[]" "split_slash p"] this len
  obtain k pushed where k: "k \<le> 5" and
    out: "remove_path_dot_segments (split_slash p) ?route = take k ?route @ pushed" and
    ok: "\<forall>s \<in> set pushed. CHR ''/'' \<notin> set s \<and> s \<noteq> ''.'' \<and> s \<noteq> ''..''"
    by auto
  define out where "out = take k ?route @ pushed"
  define out1 where "out1 = (if out = [] \<or> hd out \<noteq> [] then [] # out else out)"
  have sub: "set (drop 5 out1) \<subseteq> set pushed"
  proof (cases "k = 0")
    case True
    have "set (drop 4 pushed) \<subseteq> set pushed" "set (drop 5 pushed) \<subseteq> set pushed"
      by (rule set_drop_subset)+
    with True show ?thesis by (auto simp: out1_def out_def)
  next
    case False
    then have "hd out = []" "out \<noteq> []"
      by (cases k; simp add: out_def contents_route_def)+
    then have "out1 = out" by (simp add: out1_def)
    moreover have "set (drop 5 out) \<subseteq> set pushed"
      using k len by (auto simp: out_def dest: in_set_dropD)
    ultimately show ?thesis by simp
  qed
  have "normalized_segments owner rn p =
          (if last (split_slash p) = ''.'' \<or> last (split_slash p) = ''..''
           then out1 @ [[]] else out1)"
    unfolding normalized_segments_def Let_def out out1_def out_def by (rule refl)
  then have "normalized_segments owner rn p = out1
        \<or> normalized_segments owner rn p = out1 @ [[]]"
    by (cases "last (split_slash p) = ''.'' \<or> last (split_slash p) = ''..''") simp_all
  with assms have "s \<in> set (drop 5 out1) \<or> s \<in> set (drop (5 - length out1) [[]])"
    by auto
  then have "s \<in> set (drop 5 out1) \<or> s = []"
    by (auto dest: in_set_dropD)
  with sub ok show ?thesis by auto
qed

lemma contents_path_plain:
  assumes "\<forall>s \<in> set (split_slash p). s \<noteq> [] \<and> s \<noteq> ''.'' \<and> s \<noteq> ''..''"
  shows "contents_path owner rn p = Some p"
proof -
  let ?segs = "split_slash p"
  from assms have nd: "\<forall>s \<in> set ?segs. s \<noteq> ''.'' \<and> s \<noteq> ''..''" by blast
  have l: "last ?segs \<in> set ?segs" by simp
  with nd have last: "last ?segs \<noteq> ''.''" "last ?segs \<noteq> ''..''" by blast+
  have "normalized_segments owner rn p = contents_route owner rn @ ?segs"
    using remove_dots_plain [OF nd, of "contents_route owner rn"] last
    by (simp add: normalized_segments_def Let_def contents_route_def)
  moreover have "[] \<notin> set ?segs" using assms by blast
  ultimately show ?thesis
    by (simp add: contents_path_def Let_def contents_route_def join_split_slash)
qed

lemma contents_path_resolved:
  assumes "contents_path owner rn p = Some q"
  shows "contents_path owner rn q = Some q"
proof -
  let ?rest = "drop 5 (normalized_segments owner rn p)"
  from assms have rest: "?rest \<noteq> []" "[] \<notin> set ?rest" and q: "q = join_slash ?rest"
    by (auto simp: contents_path_def Let_def split: if_splits)
  from normalized_rest [of _ owner rn p] rest(2) have
    ok: "\<forall>s \<in> set ?rest. CHR ''/'' \<notin> set s \<and> s \<noteq> ''.'' \<and> s \<noteq> ''..''"
    by blast
  then have "split_slash q = ?rest" using q rest(1) by (simp add: split_join_slash)
  with ok rest(2) have "\<forall>s \<in> set (split_slash q). s \<noteq> [] \<and> s \<noteq> ''.'' \<and> s \<noteq> ''..''"
    by metis
  then show ?thesis by (rule contents_path_plain)
qed



lemma readme_path [simp]: "contents_path owner rn ''README.md'' = Some ''README.md''"
  by (rule contents_path_plain) simp

lemma license_path [simp]: "contents_path owner rn ''LICENSE'' = Some ''LICENSE''"
  by (rule contents_path_plain) simp

subsection \<open>Projections\<close>

lemma emit_proj [simp]:
  "trace (emit e w) = trace w @ [e]" "repos (emit e w) = repos w" "faults (emit e w) = faults w"
  "clock (emit e w) = clock w" "ticks (emit e w) = ticks w" "tasks (emit e w) = tasks w"
  "login (emit e w) = login w" "endpoint (emit e w) = endpoint w" "posts (emit e w) = posts w"
  by (simp_all add: emit_def)

lemma next_fault_proj [simp]:
  "trace (snd (next_fault w)) = trace w" "repos (snd (next_fault w)) = repos w"
  "faults (snd (next_fault w)) = tl (faults w)"
  "clock (snd (next_fault w)) = clock w" "ticks (snd (next_fault w)) = ticks w"
  "tasks (snd (next_fault w)) = tasks w" "login (snd (next_fault w)) = login w"
  "endpoint (snd (next_fault w)) = endpoint w" "posts (snd (next_fault w)) = posts w"
  by (simp_all add: next_fault_def split: list.splits)

lemma next_fault_nominal [simp]: "faults w = [] \<Longrightarrow> fst (next_fault w) = False"
  by (simp add: next_fault_def)

lemma write_file_proj [simp]:
  "trace (write_file rn p msg c w) = trace w" "faults (write_file rn p msg c w) = faults w"
  "clock (write_file rn p msg c w) = clock w" "ticks (write_file rn p msg c w) = ticks w"
  "tasks (write_file rn p msg c w) = tasks w" "login (write_file rn p msg c w) = login w"
  "endpoint (write_file rn p msg c w) = endpoint w" "posts (write_file rn p msg c w) = posts w"
  by (simp_all add: write_file_def split: option.splits)

subsection \<open>The hosting operations in closed form\<close>

lemma write_file_repos:
  "map_of (repos w) rn = Some r \<Longrightarrow>
   repos (write_file rn q msg c w) =
     AList.update rn
       (r\<lparr>files := AList.update q c (files r), commits := Commit msg q c # commits r\<rparr>)
       (repos w)"
  by (simp add: write_file_def)

lemma get_contents_eq:
  "get_contents rn p w =
     (case (if fst (next_fault w) then None else file_at w rn p) of
        None \<Rightarrow> (Inl GithubException, emit (Get_contents rn p False) (snd (next_fault w)))
      | Some c \<Rightarrow>
          (Inr (the (contents_path (login w) rn p), blob_sha c, c),
           emit (Get_contents rn p True) (snd (next_fault w))))"
  by (simp add: get_contents_def file_at_def split_beta Let_def split: option.splits)

lemma update_file_eq:
  "update_file rn p msg c sha w =
     (if \<not> fst (next_fault w) \<and> file_at w rn p \<noteq> None
         \<and> map_option blob_sha (file_at w rn p) = Some sha
      then (Inr (),
            emit (Update_file rn p msg c sha True)
              (write_file rn (the (contents_path (login w) rn p)) msg c (snd (next_fault w))))
      else (Inl GithubException, emit (Update_file rn p msg c sha False) (snd (next_fault w))))"
  by (auto simp add: update_file_def file_at_def split_beta Let_def split: option.splits)

lemma create_file_eq:
  "create_file rn p msg c w =
     (if \<not> fst (next_fault w) \<and> map_of (repos w) rn \<noteq> None
         \<and> contents_path (login w) rn p \<noteq> None \<and> file_at w rn p = None
      then (Inr (),
            emit (Create_file rn p msg c True)
              (write_file rn (the (contents_path (login w) rn p)) msg c (snd (next_fault w))))
      else (Inl GithubException, emit (Create_file rn p msg c False) (snd (next_fault w))))"
  by (auto simp add: create_file_def file_at_def split_beta Let_def split: option.splits)

lemma file_at_emit [simp]: "file_at (emit e w) rn p = file_at w rn p"
  by (simp add: file_at_def split: option.splits)

lemma file_at_next_fault [simp]: "file_at (snd (next_fault w)) rn p = file_at w rn p"
  by (simp add: file_at_def split: option.splits)

lemma file_at_Some:
  "file_at w rn p = Some c \<Longrightarrow>
   \<exists>r q. map_of (repos w) rn = Some r \<and> contents_path (login w) rn p = Some q
        \<and> map_of (files r) q = Some c"
  by (auto simp: file_at_def split: option.splits)

lemma file_at_resolved:
  "contents_path (login w) rn p = Some q \<Longrightarrow> file_at w rn q = file_at w rn p"
  by (simp add: file_at_def contents_path_resolved split: option.splits)

lemma file_at_write_file:
  "map_of (repos w) rn = Some r \<Longrightarrow> contents_path (login w) rn p = Some q \<Longrightarrow>
   file_at (write_file rn q msg c w) rn p = Some c"
  by (simp add: file_at_def write_file_repos update_conv')

lemma new_events_app [simp]: "trace w' = trace w @ evs \<Longrightarrow> new_events w w' = evs"
  by (simp add: new_events_def)

subsection \<open>One pass of the loop body\<close>

lemma upsert_attachment_Inl:
  "upsert_attachment repo a w = (Inl e, w') \<Longrightarrow> repos w' = repos w"
  by (auto simp: upsert_attachment_def get_contents_eq update_file_eq create_file_eq
      split: sum.splits option.splits if_splits prod.splits)

lemma upsert_attachment_login:
  "upsert_attachment repo a w = (res, w') \<Longrightarrow> login w' = login w"
  by (auto simp: upsert_attachment_def get_contents_eq update_file_eq create_file_eq
      split: sum.splits option.splits if_splits prod.splits)

lemma upsert_attachment_Inr:
  assumes "upsert_attachment repo a w = (Inr u, w')"
  shows "\<exists>r c q. map_of (repos w) repo = Some r \<and> b64decode (content a) = Inr c
           \<and> contents_path (login w) repo (filename a) = Some q
           \<and> repos w' = AList.update repo
               (r\<lparr>files := AList.update q c (files r),
                  commits := Commit ((if map_of (files r) q = None then ''Add ''
                                      else ''Update '') @ filename a) q c # commits r\<rparr>)
               (repos w)"
proof -
  from assms obtain c where c: "b64decode (content a) = Inr c"
    by (cases "b64decode (content a)") (auto simp: upsert_attachment_def)
  show ?thesis
  proof (cases "fst (next_fault w) \<or> file_at w repo (filename a) = None")
    case True
    with assms c show ?thesis
      by (auto simp: upsert_attachment_def get_contents_eq create_file_eq write_file_repos
          file_at_def split: option.splits if_splits)
  next
    case False
    then obtain old where old: "file_at w repo (filename a) = Some old" by auto
    from file_at_Some [OF this] obtain r q where
      r: "map_of (repos w) repo = Some r" and
      q: "contents_path (login w) repo (filename a) = Some q" and
      f: "map_of (files r) q = Some old" by blast
    have qq: "contents_path (login w) repo q = Some q"
      using q by (rule contents_path_resolved)
    have fq: "file_at w repo q = Some old"
      using file_at_resolved [OF q] old by simp
    from assms c False old r q f qq fq show ?thesis
      by (auto simp: upsert_attachment_def get_contents_eq update_file_eq create_file_eq
          write_file_repos split: if_splits)
  qed
qed

lemma upsert_attachment_trace:
  assumes "upsert_attachment repo a w = (res, w')"
  shows "\<exists>evs. trace w' = trace w @ evs \<and> (list_ex failed_write evs \<longrightarrow> isl res)
           \<and> \<not> list_ex created (butlast evs)"
proof (cases "fst (next_fault w) \<or> file_at w repo (filename a) = None")
  case True
  with assms show ?thesis
    by (auto simp: upsert_attachment_def get_contents_eq create_file_eq
        split: sum.splits if_splits)
next
  case False
  then obtain old where old: "file_at w repo (filename a) = Some old" by auto
  from file_at_Some [OF this] obtain q where
    q: "contents_path (login w) repo (filename a) = Some q" by blast
  have fq: "file_at w repo q = Some old"
    using file_at_resolved [OF q] old by simp
  from assms False old q fq show ?thesis
    by (auto simp: upsert_attachment_def get_contents_eq update_file_eq create_file_eq
        split: sum.splits if_splits)
qed

subsection \<open>Resolution, decoding and the whole loop\<close>

lemma next_fault_emit [simp]:
  "fst (next_fault (emit e w)) = fst (next_fault w)"
  "snd (next_fault (emit e w)) = emit e (snd (next_fault w))"
  by (simp_all add: next_fault_def emit_def split: list.splits)

lemma get_repo_eq:
  "get_repo name w =
     (if \<not> fst (next_fault w) \<and> map_of (repos w) name \<noteq> None
      then (Inr name, emit (Get_repo name True) (snd (next_fault w)))
      else (Inl GithubException, emit (Get_repo name False) (snd (next_fault w))))"
  by (simp add: get_repo_def split_beta)

lemma create_repo_eq:
  "create_repo name priv w =
     (if \<not> fst (next_fault w) \<and> map_of (repos w) name = None
      then (Inr name,
            emit (Create_repo name priv True)
              ((snd (next_fault w))\<lparr>repos := AList.update name
                   \<lparr>files = [], is_private = priv, commits = []\<rparr> (repos w)\<rparr>))
      else (Inl GithubException, emit (Create_repo name priv False) (snd (next_fault w))))"
  by (simp add: create_repo_def split_beta)

lemma str_int_2: "str_int 2 = ''2''"
  by code_simp


lemma a2b_base64_error: "a2b_base64 s q l p out = Inl e \<Longrightarrow> e = Base64Error"
  by (induction s q l p out rule: a2b_base64.induct) (auto split: if_splits option.splits)

lemma b64decode_error: "b64decode s = Inl e \<Longrightarrow> e = Base64Error"
  by (simp add: b64decode_def a2b_base64_error)

lemma storable_resolves:
  "storable owner rn a \<Longrightarrow> contents_path owner rn (filename a) \<noteq> None"
  by (simp add: storable_def split: option.splits)

lemma upsert_attachment_file:
  assumes "upsert_attachment repo a w = (Inr u, w')"
  shows "\<exists>c. b64decode (content a) = Inr c \<and> file_at w' repo (filename a) = Some c"
proof -
  from upsert_attachment_Inr [OF assms] obtain r c q where
    "map_of (repos w) repo = Some r" "b64decode (content a) = Inr c"
    "contents_path (login w) repo (filename a) = Some q"
    "repos w' = AList.update repo
             (r\<lparr>files := AList.update q c (files r),
                commits := Commit ((if map_of (files r) q = None then ''Add ''
                                    else ''Update '') @ filename a) q c # commits r\<rparr>)
             (repos w)"
    by blast
  moreover have "login w' = login w" using assms by (rule upsert_attachment_login)
  ultimately show ?thesis by (simp add: file_at_def update_conv')
qed

lemma upsert_attachments_trace:
  "upsert_attachments repo atts w = (res, w') \<Longrightarrow>
   \<exists>evs. trace w' = trace w @ evs \<and> (list_ex failed_write evs \<longrightarrow> isl res)"
proof (induction atts arbitrary: w)
  case Nil
  then show ?case by simp
next
  case (Cons a rest)
  obtain r1 w1 where step: "upsert_attachment repo a w = (r1, w1)"
    by (cases "upsert_attachment repo a w")
  from upsert_attachment_trace [OF step] obtain evs1 where
    t1: "trace w1 = trace w @ evs1" and f1: "list_ex failed_write evs1 \<longrightarrow> isl r1" by blast
  show ?case
  proof (cases r1)
    case (Inl e)
    with step Cons.prems have "res = Inl e" "w' = w1" by simp_all
    with t1 show ?thesis by auto
  next
    case (Inr u)
    with step Cons.prems have "upsert_attachments repo rest w1 = (res, w')" by simp
    from Cons.IH [OF this] obtain evs2 where
      t2: "trace w' = trace w1 @ evs2" and f2: "list_ex failed_write evs2 \<longrightarrow> isl res"
      by blast
    from Inr f1 have "\<not> list_ex failed_write evs1" by auto
    with t1 t2 f2 show ?thesis by auto
  qed
qed

lemma upsert_attachments_Inr:
  "upsert_attachments repo atts w = (Inr u, w') \<Longrightarrow> map_of (repos w) repo = Some r \<Longrightarrow>
   list_all decodable atts \<and>
   (\<exists>r'. map_of (repos w') repo = Some r' \<and>
         commits r' = rev (upsert_plan (login w) repo (files r) atts) @ commits r \<and>
         files r' = plan_files (login w) repo (files r) atts \<and>
         is_private r' = is_private r)"
proof (induction atts arbitrary: w r)
  case Nil
  then show ?case by simp
next
  case (Cons a rest)
  obtain r1 w1 where step: "upsert_attachment repo a w = (r1, w1)"
    by (cases "upsert_attachment repo a w")
  with Cons.prems(1) obtain u1 where r1: "r1 = Inr u1" and
    rest: "upsert_attachments repo rest w1 = (Inr u, w')"
    by (cases r1) auto
  have l1: "login w1 = login w" using step by (rule upsert_attachment_login)
  from upsert_attachment_Inr [OF step [unfolded r1]] Cons.prems(2) obtain c q where
    c: "b64decode (content a) = Inr c" and
    q: "contents_path (login w) repo (filename a) = Some q" and
    w1: "repos w1 = AList.update repo
             (r\<lparr>files := AList.update q c (files r),
                commits := Commit ((if map_of (files r) q = None then ''Add ''
                                    else ''Update '') @ filename a) q c # commits r\<rparr>)
             (repos w)"
    by auto
  let ?r1 = "r\<lparr>files := AList.update q c (files r),
                commits := Commit ((if map_of (files r) q = None then ''Add ''
                                    else ''Update '') @ filename a) q c # commits r\<rparr>"
  have "map_of (repos w1) repo = Some ?r1" by (simp add: w1 update_conv')
  from Cons.IH [OF rest this] c q l1 show ?case by auto
qed

lemma upsert_attachment_nominal:
  assumes "faults w = []" "map_of (repos w) repo = Some r" "decodable a"
      and "contents_path (login w) repo (filename a) \<noteq> None"
  shows "\<exists>w'. upsert_attachment repo a w = (Inr (), w') \<and> faults w' = []"
proof -
  from assms(3) obtain c where c: "b64decode (content a) = Inr c"
    by (cases "b64decode (content a)") auto
  from assms(4) obtain q where q: "contents_path (login w) repo (filename a) = Some q"
    by auto
  have qq: "contents_path (login w) repo q = Some q"
    using q by (rule contents_path_resolved)
  show ?thesis
  proof (cases "map_of (files r) q")
    case None
    with assms(1,2) c q show ?thesis
      by (simp add: upsert_attachment_def get_contents_eq create_file_eq file_at_def)
  next
    case (Some old)
    with assms(1,2) c q qq show ?thesis
      by (simp add: upsert_attachment_def get_contents_eq update_file_eq file_at_def
          blob_sha_def)
  qed
qed

lemma upsert_attachments_nominal:
  "faults w = [] \<Longrightarrow> map_of (repos w) repo = Some r \<Longrightarrow> list_all decodable atts \<Longrightarrow>
   list_all (\<lambda>a. contents_path (login w) repo (filename a) \<noteq> None) atts \<Longrightarrow>
   \<exists>w'. upsert_attachments repo atts w = (Inr (), w') \<and> faults w' = []"
proof (induction atts arbitrary: w r)
  case Nil
  then show ?case by simp
next
  case (Cons a rest)
  from Cons.prems have "decodable a" "contents_path (login w) repo (filename a) \<noteq> None"
    by simp_all
  from upsert_attachment_nominal [OF Cons.prems(1,2) this] obtain w1 where
    step: "upsert_attachment repo a w = (Inr (), w1)" and f1: "faults w1 = []" by blast
  have l1: "login w1 = login w" using step by (rule upsert_attachment_login)
  from upsert_attachment_Inr [OF step] obtain r1 where "map_of (repos w1) repo = Some r1"
    by (auto simp: update_conv')
  from Cons.IH [OF f1 this] Cons.prems(3,4) step l1 show ?case by simp
qed

lemma upsert_attachments_append:
  "upsert_attachments repo (xs @ ys) w =
     (case upsert_attachments repo xs w of
        (Inl e, w1) \<Rightarrow> (Inl e, w1)
      | (Inr u, w1) \<Rightarrow> upsert_attachments repo ys w1)"
  by (induction xs arbitrary: w) (auto split: prod.splits sum.splits)

section \<open>Rejected submissions\<close>

text \<open>
  Claim C1. A submission whose secret differs from the configured one is answered with
  status 200 and the body \<open>{"error": "Invalid secret"}\<close>, in both servers, and the
  world is left as it was: no call to the hosting service, no POST to the evaluation
  endpoint and no scheduled notification.
\<close>

theorem invalid_secret_rejected:
  "(secret payload \<noteq> SECRET_FORM ga \<longrightarrow>
      handle_request_api ga payload w =
        (Inr \<lparr>status_code = 200, body = [(''error'', JStr ''Invalid secret'')]\<rparr>, w))
   \<and> (secret payload \<noteq> VALID_SECRET gs \<longrightarrow>
      handle_request_srv gs payload w =
        (Inr \<lparr>status_code = 200, body = [(''error'', JStr ''Invalid secret'')]\<rparr>, w))"
  by (simp add: handle_request_api_def handle_request_srv_def)

theorem invalid_secret_rejected_witness:
  "secret (submission ''guess'' 1 [index_html]) \<noteq> ''Ojal2''
   \<and> handle_request_api \<lparr>GITHUB_TOKEN_api = ''t'', SECRET_FORM = ''Ojal2''\<rparr>
        (submission ''guess'' 1 [index_html]) empty_account =
        (Inr \<lparr>status_code = 200, body = [(''error'', JStr ''Invalid secret'')]\<rparr>, empty_account)
   \<and> handle_request_srv \<lparr>GITHUB_TOKEN_srv = ''t'', VALID_SECRET = ''Ojal2''\<rparr>
        (submission ''guess'' 1 [index_html]) empty_account =
        (Inr \<lparr>status_code = 200, body = [(''error'', JStr ''Invalid secret'')]\<rparr>, empty_account)"
  using invalid_secret_rejected
          [of "submission ''guess'' 1 [index_html]"
              "\<lparr>GITHUB_TOKEN_api = ''t'', SECRET_FORM = ''Ojal2''\<rparr>" empty_account
              "\<lparr>GITHUB_TOKEN_srv = ''t'', VALID_SECRET = ''Ojal2''\<rparr>"]
  by (simp add: submission_def)

section \<open>A repository that does not exist\<close>



section \<open>The loop over the attachments\<close>

lemma faulty_resolve: "fst (resolve_repo ''demo'' 2 faulty_account) = Inr ''demo''"
  by code_simp

lemma faulty_events:
  "new_events (snd (resolve_repo ''demo'' 2 faulty_account))
     (snd (upsert_attachments ''demo'' [index_html] (snd (resolve_repo ''demo'' 2 faulty_account))))
   = [Get_contents ''demo'' ''index.html'' True,
      Update_file ''demo'' ''index.html'' ''Update index.html'' ''<h1>hi</h1>'' ''<h1>hi</h1>'' False,
      Create_file ''demo'' ''index.html'' ''Add index.html'' ''<h1>hi</h1>'' False]"
  by code_simp

text \<open>
  Claim C4. A failed write of an attachment aborts the synchronisation: whenever a call
  to \<open>update_file\<close> or \<open>create_file\<close> made by the loop fails, the loop raises and
  \<open>init_or_update_repo\<close> raises the same exception in the same world, in both
  servers. (The bare \<open>except\<close> does catch a failed update, but the creation it then
  attempts finds the path taken and raises.) And one pass of the loop body either
  raises, having written nothing, or returns with the decoded bytes stored at the
  attachment's path.
\<close>

theorem failed_upsert_aborts:
  assumes "resolve_repo task_name round w = (Inr repo, w1)"
      and "upsert_attachments repo atts w1 = (res, w2)"
      and "upsert_attachment repo a wa = (ra, wb)"
  shows "(list_ex failed_write (new_events w1 w2) \<longrightarrow>
            (\<exists>e. res = Inl e
               \<and> init_or_update_repo_api task_name round brf atts w = (Inl e, w2)
               \<and> init_or_update_repo_srv task_name round brf atts w = (Inl e, w2)))
       \<and> ((\<exists>e. ra = Inl e \<and> repos wb = repos wa)
          \<or> (ra = Inr () \<and> (\<exists>c. b64decode (content a) = Inr c
                               \<and> file_at wb repo (filename a) = Some c)))"
proof -
  from upsert_attachments_trace [OF assms(2)] obtain evs where
    "trace w2 = trace w1 @ evs" and f: "list_ex failed_write evs \<longrightarrow> isl res" by blast
  then have ev: "new_events w1 w2 = evs" by simp
  have first: "list_ex failed_write (new_events w1 w2) \<longrightarrow>
            (\<exists>e. res = Inl e
               \<and> init_or_update_repo_api task_name round brf atts w = (Inl e, w2)
               \<and> init_or_update_repo_srv task_name round brf atts w = (Inl e, w2))"
  proof
    assume "list_ex failed_write (new_events w1 w2)"
    with ev f obtain e where "res = Inl e" by (cases res) auto
    with assms(1,2) show "\<exists>e. res = Inl e
               \<and> init_or_update_repo_api task_name round brf atts w = (Inl e, w2)
               \<and> init_or_update_repo_srv task_name round brf atts w = (Inl e, w2)"
      by (simp add: init_or_update_repo_api_def init_or_update_repo_srv_def
          sync_into_api_def sync_into_srv_def)
  qed
  have second: "(\<exists>e. ra = Inl e \<and> repos wb = repos wa)
          \<or> (ra = Inr () \<and> (\<exists>c. b64decode (content a) = Inr c
                               \<and> file_at wb repo (filename a) = Some c))"
  proof (cases ra)
    case (Inl e)
    with assms(3) upsert_attachment_Inl show ?thesis by blast
  next
    case (Inr u)
    with assms(3) upsert_attachment_file show ?thesis by auto
  qed
  from first second show ?thesis by blast
qed

theorem failed_upsert_aborts_witness:
  "fst (resolve_repo ''demo'' 2 faulty_account) = Inr ''demo''
   \<and> list_ex failed_write
        (new_events (snd (resolve_repo ''demo'' 2 faulty_account))
           (snd (upsert_attachments ''demo'' [index_html]
                   (snd (resolve_repo ''demo'' 2 faulty_account)))))
   \<and> isl (fst (init_or_update_repo_api ''demo'' 2 ''second'' [index_html] faulty_account))
   \<and> isl (fst (init_or_update_repo_srv ''demo'' 2 ''second'' [index_html] faulty_account))"
proof -
  let ?w1 = "snd (resolve_repo ''demo'' 2 faulty_account)"
  let ?r = "upsert_attachments ''demo'' [index_html] ?w1"
  have h1: "resolve_repo ''demo'' 2 faulty_account = (Inr ''demo'', ?w1)"
    using faulty_resolve by (simp add: prod_eq_iff)
  have h2: "?r = (fst ?r, snd ?r)" by simp
  have h3: "upsert_attachment ''demo'' index_html ?w1
              = (fst (upsert_attachment ''demo'' index_html ?w1),
                 snd (upsert_attachment ''demo'' index_html ?w1))" by simp
  have h4: "list_ex failed_write (new_events ?w1 (snd ?r))"
    unfolding faulty_events by simp
  from failed_upsert_aborts [OF h1 h2 h3, of "''second''"] h4 faulty_resolve
  show ?thesis by auto
qed

text \<open>
  Claim C6. Upserting the same attachment a second time leaves the table of files as
  the first run left it, with the decoded content at the attachment's path both times,
  and creates nothing; when its two hosting calls meet no transient failure, the second
  run is a lookup that finds the file followed by a successful update of the file at
  the path the lookup returned.
\<close>

theorem upsert_idempotent:
  assumes "upsert_attachment repo a w = (Inr (), w1)"
      and "upsert_attachment repo a w1 = (res, w2)"
  shows "map_option files (map_of (repos w2) repo) = map_option files (map_of (repos w1) repo)
       \<and> \<not> list_ex created (new_events w1 w2)
       \<and> (\<exists>c q. b64decode (content a) = Inr c
              \<and> contents_path (login w1) repo (filename a) = Some q
              \<and> file_at w1 repo (filename a) = Some c \<and> file_at w2 repo (filename a) = Some c
              \<and> (\<not> fst (next_fault w1) \<and> \<not> fst (next_fault (snd (next_fault w1))) \<longrightarrow>
                    res = Inr ()
                    \<and> new_events w1 w2 =
                        [Get_contents repo (filename a) True,
                         Update_file repo q (''Update '' @ filename a) c (blob_sha c) True]))"
proof -
  from upsert_attachment_file [OF assms(1)] obtain c where
    c: "b64decode (content a) = Inr c" and f1: "file_at w1 repo (filename a) = Some c" by blast
  from file_at_Some [OF f1] obtain r1 q where
    r1: "map_of (repos w1) repo = Some r1" and
    q: "contents_path (login w1) repo (filename a) = Some q" and
    fq: "map_of (files r1) q = Some c" by blast
  have qq: "contents_path (login w1) repo q = Some q"
    using q by (rule contents_path_resolved)
  have f1q: "file_at w1 repo q = Some c"
    using file_at_resolved [OF q] f1 by simp
  have triv: "AList.update q c (files r1) = files r1"
    using fq by (rule update_triv)
  have l2: "login w2 = login w1" using assms(2) by (rule upsert_attachment_login)
  have files: "map_option files (map_of (repos w2) repo) = map_option files (map_of (repos w1) repo)"
    using assms(2) c f1 r1 q qq f1q triv
    by (auto simp: upsert_attachment_def get_contents_eq update_file_eq create_file_eq
        write_file_repos update_conv' split: if_splits)
  have nocreate: "\<not> list_ex created (new_events w1 w2)"
    using assms(2) c f1 r1 q qq f1q
    by (auto simp: upsert_attachment_def get_contents_eq update_file_eq create_file_eq
        split: if_splits)
  have f2: "file_at w2 repo (filename a) = Some c"
  proof -
    from files r1 obtain r2 where r2: "map_of (repos w2) repo = Some r2" "files r2 = files r1"
      by (cases "map_of (repos w2) repo") auto
    with q l2 fq show ?thesis by (simp add: file_at_def)
  qed
  have run: "\<not> fst (next_fault w1) \<and> \<not> fst (next_fault (snd (next_fault w1))) \<longrightarrow>
                    res = Inr ()
                    \<and> new_events w1 w2 =
                        [Get_contents repo (filename a) True,
                         Update_file repo q (''Update '' @ filename a) c (blob_sha c) True]"
    using assms(2) c f1 r1 q qq f1q
    by (auto simp: upsert_attachment_def get_contents_eq update_file_eq create_file_eq
        split: if_splits)
  from files nocreate c q f1 f2 run show ?thesis by blast
qed

lemma first_upsert: "fst (upsert_attachment ''demo'' style_css demo_account) = Inr ()"
  by code_simp

lemma second_upsert:
  "new_events (snd (upsert_attachment ''demo'' style_css demo_account))
     (snd (upsert_attachment ''demo'' style_css
             (snd (upsert_attachment ''demo'' style_css demo_account))))
   = [Get_contents ''demo'' ''style.css'' True,
      Update_file ''demo'' ''style.css'' ''Update style.css'' ''p{}'' ''p{}'' True]"
  by code_simp

lemma demo_nominal: "faults demo_account = []"
  by (simp add: demo_account_def empty_account_def)

lemma demo_repos: "map_of (repos demo_account) ''demo'' = Some demo_repo"
  by (simp add: demo_account_def empty_account_def)







theorem upsert_idempotent_witness:
  "fst (upsert_attachment ''demo'' style_css demo_account) = Inr ()
   \<and> \<not> fst (next_fault (snd (upsert_attachment ''demo'' style_css demo_account)))
   \<and> map_option files
        (map_of (repos (snd (upsert_attachment ''demo'' style_css
                               (snd (upsert_attachment ''demo'' style_css demo_account)))))
           ''demo'')
       = map_option files
           (map_of (repos (snd (upsert_attachment ''demo'' style_css demo_account))) ''demo'')
   \<and> new_events (snd (upsert_attachment ''demo'' style_css demo_account))
        (snd (upsert_attachment ''demo'' style_css
                (snd (upsert_attachment ''demo'' style_css demo_account))))
       = [Get_contents ''demo'' ''style.css'' True,
          Update_file ''demo'' ''style.css'' ''Update style.css'' ''p{}'' ''p{}'' True]"
proof -
  let ?w1 = "snd (upsert_attachment ''demo'' style_css demo_account)"
  let ?r2 = "upsert_attachment ''demo'' style_css ?w1"
  have h1: "upsert_attachment ''demo'' style_css demo_account = (Inr (), ?w1)"
    using first_upsert by (simp add: prod_eq_iff)
  have h2: "?r2 = (fst ?r2, snd ?r2)" by simp
  have nf: "\<not> fst (next_fault ?w1)" by code_simp
  from upsert_idempotent [OF h1 h2] first_upsert nf second_upsert show ?thesis by blast
qed



section \<open>An attachment that does not decode\<close>

lemma resolve_repo_nominal:
  assumes "faults w = []" "round = 1 \<or> map_of (repos w) task_name \<noteq> None"
  shows "\<exists>w1 r. resolve_repo task_name round w = (Inr task_name, w1) \<and> faults w1 = []
           \<and> map_of (repos w1) task_name = Some r \<and> login w1 = login w"
  using assms
  by (auto simp: resolve_repo_def get_repo_eq create_repo_eq update_conv')

lemma broken_undecodable: "\<not> decodable broken"
  by code_simp

lemma index_decodable: "list_all decodable [index_html]"
  by code_simp

lemma index_storable: "list_all (storable ''ojal'' ''demo'') [index_html]"
  by code_simp

lemma index_tree_like: "tree_like (plan_files ''ojal'' ''demo'' [] [index_html])"
  by code_simp

lemma empty_nominal: "faults empty_account = []"
  by (simp add: empty_account_def)

lemma partial_api:
  "fst (handle_request_api \<lparr>GITHUB_TOKEN_api = ''t'', SECRET_FORM = ''Ojal2''\<rparr>
          (submission ''Ojal2'' 1 [index_html, broken, style_css]) empty_account)
     = Inl Base64Error
   \<and> repos (snd (handle_request_api \<lparr>GITHUB_TOKEN_api = ''t'', SECRET_FORM = ''Ojal2''\<rparr>
                   (submission ''Ojal2'' 1 [index_html, broken, style_css]) empty_account))
     = [(''demo'', \<lparr>files = [(''index.html'', ''<h1>hi</h1>'')], is_private = False,
                    commits = [Commit ''Add index.html'' ''index.html'' ''<h1>hi</h1>'']\<rparr>)]
   \<and> trace (snd (handle_request_api \<lparr>GITHUB_TOKEN_api = ''t'', SECRET_FORM = ''Ojal2''\<rparr>
                   (submission ''Ojal2'' 1 [index_html, broken, style_css]) empty_account))
     = [Get_repo ''demo'' False, Create_repo ''demo'' False True,
        Get_contents ''demo'' ''index.html'' False,
        Create_file ''demo'' ''index.html'' ''Add index.html'' ''<h1>hi</h1>'' True]"
  by code_simp

text \<open>
  Claim C10. Nothing checks the attachments before the side effects begin. For a
  submission with the right secret whose attachments are \<open>pre @ bad # post\<close>, where
  those of \<open>pre\<close> decode and are storable and \<open>bad\<close> does not decode (and the
  hosting calls meet no transient failure), both handlers end with the uncaught
  decoding error, in the very world reached by resolving or creating the repository
  and writing every attachment of \<open>pre\<close>: those writes stay in place.
\<close>

theorem undecodable_attachment:
  assumes "secret payload = SECRET_FORM ga" and "secret payload = VALID_SECRET gs"
      and "attachments payload = pre @ bad # post"
      and "list_all decodable pre" and "\<not> decodable bad"
      and "faults w = []"
      and "round_index payload = 1 \<or> map_of (repos w) (task payload) \<noteq> None"
      and "list_all (storable (login w) (task payload)) pre"
      and "tree_like (plan_files (login w) (task payload)
                        (case map_of (repos w) (task payload) of
                           None \<Rightarrow> [] | Some r0 \<Rightarrow> files r0) pre)"
  shows "\<exists>w1 w2 r r'.
           resolve_repo (task payload) (round_index payload) w = (Inr (task payload), w1)
           \<and> map_of (repos w1) (task payload) = Some r
           \<and> upsert_attachments (task payload) pre w1 = (Inr (), w2)
           \<and> map_of (repos w2) (task payload) = Some r'
           \<and> files r' = plan_files (login w) (task payload) (files r) pre
           \<and> commits r' = rev (upsert_plan (login w) (task payload) (files r) pre) @ commits r
           \<and> handle_request_api ga payload w = (Inl Base64Error, w2)
           \<and> handle_request_srv gs payload w = (Inl Base64Error, w2)"
proof -
  let ?t = "task payload"
  from resolve_repo_nominal [OF assms(6,7)] obtain w1 r where
    res: "resolve_repo ?t (round_index payload) w = (Inr ?t, w1)" and
    f1: "faults w1 = []" and r: "map_of (repos w1) ?t = Some r" and
    l1: "login w1 = login w" by blast
  have "list_all (\<lambda>a. contents_path (login w1) ?t (filename a) \<noteq> None) pre"
    using assms(8) storable_resolves unfolding list_all_iff l1 by blast
  from upsert_attachments_nominal [OF f1 r assms(4) this] obtain w2 where
    pre: "upsert_attachments ?t pre w1 = (Inr (), w2)" by blast
  from upsert_attachments_Inr [OF pre r] l1 obtain r' where
    r': "map_of (repos w2) ?t = Some r'" "files r' = plan_files (login w) ?t (files r) pre"
        "commits r' = rev (upsert_plan (login w) ?t (files r) pre) @ commits r" by auto
  from assms(5) obtain e where "b64decode (content bad) = Inl e"
    by (cases "b64decode (content bad)") auto
  with b64decode_error have bad: "b64decode (content bad) = Inl Base64Error" by blast
  then have "upsert_attachment ?t bad w2 = (Inl Base64Error, w2)"
    by (simp add: upsert_attachment_def)
  with pre have loop: "upsert_attachments ?t (pre @ bad # post) w1 = (Inl Base64Error, w2)"
    by (simp add: upsert_attachments_append)
  from res loop assms(1,2,3) have
    "handle_request_api ga payload w = (Inl Base64Error, w2)"
    "handle_request_srv gs payload w = (Inl Base64Error, w2)"
    by (simp_all add: handle_request_api_def handle_request_srv_def
        init_or_update_repo_api_def init_or_update_repo_srv_def
        sync_into_api_def sync_into_srv_def)
  with res r pre r' show ?thesis by blast
qed

theorem undecodable_attachment_witness:
  "secret (submission ''Ojal2'' 1 [index_html, broken, style_css]) = ''Ojal2''
   \<and> attachments (submission ''Ojal2'' 1 [index_html, broken, style_css])
       = [index_html] @ broken # [style_css]
   \<and> list_all decodable [index_html] \<and> \<not> decodable broken
   \<and> list_all (storable (login empty_account) ''demo'') [index_html]
   \<and> faults empty_account = []
   \<and> round_index (submission ''Ojal2'' 1 [index_html, broken, style_css]) = 1
   \<and> (\<exists>w2. handle_request_api \<lparr>GITHUB_TOKEN_api = ''t'', SECRET_FORM = ''Ojal2''\<rparr>
              (submission ''Ojal2'' 1 [index_html, broken, style_css]) empty_account
              = (Inl Base64Error, w2)
          \<and> handle_request_srv \<lparr>GITHUB_TOKEN_srv = ''t'', VALID_SECRET = ''Ojal2''\<rparr>
              (submission ''Ojal2'' 1 [index_html, broken, style_css]) empty_account
              = (Inl Base64Error, w2)
          \<and> repos w2
              = [(''demo'', \<lparr>files = [(''index.html'', ''<h1>hi</h1>'')], is_private = False,
                    commits = [Commit ''Add index.html'' ''index.html'' ''<h1>hi</h1>'']\<rparr>)]
          \<and> trace w2
              = [Get_repo ''demo'' False, Create_repo ''demo'' False True,
                 Get_contents ''demo'' ''index.html'' False,
                 Create_file ''demo'' ''index.html'' ''Add index.html'' ''<h1>hi</h1>'' True])"
proof -
  let ?p = "submission ''Ojal2'' 1 [index_html, broken, style_css]"
  let ?ga = "\<lparr>GITHUB_TOKEN_api = ''t'', SECRET_FORM = ''Ojal2''\<rparr>"
  let ?gs = "\<lparr>GITHUB_TOKEN_srv = ''t'', VALID_SECRET = ''Ojal2''\<rparr>"
  have h1: "secret ?p = SECRET_FORM ?ga" by (simp add: submission_def)
  have h2: "secret ?p = VALID_SECRET ?gs" by (simp add: submission_def)
  have h3: "attachments ?p = [index_html] @ broken # [style_css]" by (simp add: submission_def)
  have h7: "round_index ?p = 1 \<or> map_of (repos empty_account) (task ?p) \<noteq> None"
    by (simp add: submission_def)
  have lg: "login empty_account = ''ojal''" "task ?p = ''demo''"
    "map_of (repos empty_account) ''demo'' = None"
    by (simp_all add: empty_account_def submission_def)
  have h8: "list_all (storable (login empty_account) (task ?p)) [index_html]"
    unfolding lg by (rule index_storable)
  have h9: "tree_like (plan_files (login empty_account) (task ?p)
                        (case map_of (repos empty_account) (task ?p) of
                           None \<Rightarrow> [] | Some r0 \<Rightarrow> files r0) [index_html])"
    unfolding lg option.case by (rule index_tree_like)
  from undecodable_attachment
         [OF h1 h2 h3 index_decodable broken_undecodable empty_nominal h7 h8 h9]
  obtain w2 where
    a: "handle_request_api ?ga ?p empty_account = (Inl Base64Error, w2)" and
    s: "handle_request_srv ?gs ?p empty_account = (Inl Base64Error, w2)" by blast
  from a partial_api have
    "repos w2 = [(''demo'', \<lparr>files = [(''index.html'', ''<h1>hi</h1>'')], is_private = False,
                    commits = [Commit ''Add index.html'' ''index.html'' ''<h1>hi</h1>'']\<rparr>)]"
    "trace w2 = [Get_repo ''demo'' False, Create_repo ''demo'' False True,
                 Get_contents ''demo'' ''index.html'' False,
                 Create_file ''demo'' ''index.html'' ''Add index.html'' ''<h1>hi</h1>'' True]"
    by simp_all
  with a s h1 h3 h8 index_decodable broken_undecodable empty_nominal lg show ?thesis
    by (simp add: submission_def)
qed

section \<open>The README\<close>

lemma utcnow_proj [simp]:
  "fst (utcnow w) = clock w (ticks w)"
  "trace (snd (utcnow w)) = trace w" "repos (snd (utcnow w)) = repos w"
  "faults (snd (utcnow w)) = faults w" "clock (snd (utcnow w)) = clock w"
  "ticks (snd (utcnow w)) = Suc (ticks w)" "login (snd (utcnow w)) = login w"
  by (simp_all add: utcnow_def)

lemma next_fault_utcnow [simp]:
  "fst (next_fault (snd (utcnow w))) = fst (next_fault w)"
  by (simp add: next_fault_def utcnow_def split: list.splits)

lemma file_at_utcnow [simp]: "file_at (snd (utcnow w)) rn p = file_at w rn p"
  by (simp add: file_at_def split: option.splits)

lemma file_at_readme:
  "map_of (repos w) rn = Some r \<Longrightarrow> file_at w rn ''README.md'' = map_of (files r) ''README.md''"
  by (simp add: file_at_def)

lemma write_readme:
  "map_of (repos w) rn = Some r \<Longrightarrow>
   file_at (write_file rn ''README.md'' msg c w) rn ''README.md'' = Some c"
  by (simp add: file_at_write_file)

lemma readme_except_api_Inr:
  assumes "readme_except_api repo round brf text w = (Inr u, w')"
  shows "file_at w repo ''README.md'' = None
         \<and> file_at w' repo ''README.md'' = Some (text @ round_section round brf (clock w (ticks w)))"
  using assms
  by (auto simp: readme_except_api_def create_file_eq split_beta write_readme
      split: if_splits)

lemma readme_api_Inr:
  assumes "readme_api repo task_name round brf w = (Inr u, w')"
      and "map_of (repos w) repo = Some r"
  shows "file_at w' repo ''README.md'' =
           Some ((case map_of (files r) ''README.md'' of
                    None \<Rightarrow> title_text task_name
                  | Some existing_readme \<Rightarrow> existing_readme)
                 @ round_section round brf (clock w (ticks w)))"
proof -
  have fa: "file_at w repo ''README.md'' = map_of (files r) ''README.md''"
    using assms(2) by (rule file_at_readme)
  show ?thesis
  proof (cases "get_contents repo ''README.md'' w")
    case (Pair g w1)
    show ?thesis
    proof (cases g)
      case (Inl e)
      with Pair assms(1) have ex: "readme_except_api repo round brf (title_text task_name) w1 = (Inr u, w')"
        by (simp add: readme_api_def)
      from Pair have w1: "w1 = emit (Get_contents repo ''README.md'' False) (snd (next_fault w))"
        using Inl by (auto simp: get_contents_eq split: option.splits if_splits)
      from readme_except_api_Inr [OF ex] w1 fa show ?thesis by auto
    next
      case (Inr t)
      obtain p sha c where t: "t = (p, sha, c)" by (cases t)
      from Pair Inr t have got: "file_at w repo ''README.md'' = Some c" "p = ''README.md''"
        "sha = blob_sha c" "w1 = emit (Get_contents repo ''README.md'' True) (snd (next_fault w))"
        by (auto simp: get_contents_eq split: option.splits if_splits)
      show ?thesis
      proof (cases "decode c")
        case (Inl e)
        with Pair Inr t assms(1) have
          ex: "readme_except_api repo round brf (title_text task_name) w1 = (Inr u, w')"
          by (simp add: readme_api_def)
        from readme_except_api_Inr [OF ex] got show ?thesis by simp
      next
        case (Inr existing)
        then have ec: "existing = c" by (simp add: decode_def split: if_splits)
        from Pair \<open>g = Inr t\<close> t Inr assms(1) got assms(2) fa ec show ?thesis
          by (auto simp: readme_api_def split_beta Let_def update_file_eq write_readme
              dest!: readme_except_api_Inr
              split: if_splits prod.splits sum.splits)
      qed
    qed
  qed
qed

lemma readme_srv_Inr:
  assumes "readme_srv repo task_name brf w = (Inr u, w')"
      and "map_of (repos w) repo = Some r"
  shows "file_at w' repo ''README.md'' = Some (readme_content_srv task_name brf (clock w (ticks w)))"
  using assms
  by (auto simp: readme_srv_def split_beta Let_def get_contents_eq update_file_eq create_file_eq
      write_readme
      split: if_splits prod.splits sum.splits option.splits)

lemma readme_api_nominal:
  assumes "faults w = []" "map_of (repos w) repo = Some r"
      and "case map_of (files r) ''README.md'' of None \<Rightarrow> True
           | Some c \<Rightarrow> utf8_valid (map of_char c)"
  shows "fst (readme_api repo task_name round brf w) = Inr ()"
  using assms
  by (auto simp: readme_api_def readme_except_api_def split_beta Let_def get_contents_eq
      update_file_eq create_file_eq file_at_def decode_def blob_sha_def
      split: option.splits)

lemma readme_srv_nominal:
  assumes "faults w = []" "map_of (repos w) repo = Some r"
  shows "fst (readme_srv repo task_name brf w) = Inr ()"
  using assms
  by (auto simp: readme_srv_def split_beta Let_def get_contents_eq
      update_file_eq create_file_eq file_at_def blob_sha_def
      split: option.splits)

lemma demo_readme_valid:
  "(case map_of (files demo_repo) ''README.md'' of
      None \<Rightarrow> True | Some c \<Rightarrow> utf8_valid (map of_char c))"
  by code_simp

lemma fresh_repo:
  "map_of (repos (snd (resolve_repo ''demo'' 1 empty_account))) ''demo''
     = Some \<lparr>files = [], is_private = False, commits = []\<rparr>
   \<and> faults (snd (resolve_repo ''demo'' 1 empty_account)) = []
   \<and> clock (snd (resolve_repo ''demo'' 1 empty_account))
        (ticks (snd (resolve_repo ''demo'' 1 empty_account))) = ''2025-10-17T09:00:00''"
  by code_simp

lemma demo_clock: "clock demo_account (ticks demo_account) = ''2025-10-17T09:00:00''"
  by (simp add: demo_account_def empty_account_def)

lemma demo_readme: "map_of (files demo_repo) ''README.md'' = Some ''# demo''"
  by (simp add: demo_repo_def)

text \<open>
  Claim C5. Each server writes the README by one policy. In \<^verbatim>\<open>src/api/server.py\<close>
  (cumulative) a completed README step leaves the existing text followed by
  \<open>\n\n## Round <round> Updates\n<brief>\nUpdated: <timestamp>\<close>, and, when there was
  no README, the title \<open># <task>\n\n\<close> followed by that same section. In
  \<^verbatim>\<open>src/server.py\<close> (replacing) it leaves
  \<open># <task>\n\nBrief:\n<brief>\n\nUpdated: <timestamp>\<close> whatever was there before.
  The timestamp is the clock's reading at the step. Without transient failures both
  steps complete (the cumulative one needs an existing README to be valid UTF-8).
\<close>

theorem readme_policy:
  assumes "map_of (repos w) repo = Some r"
  shows "(readme_api repo task_name round brf w = (Inr (), w') \<longrightarrow>
            file_at w' repo ''README.md'' =
              Some ((case map_of (files r) ''README.md'' of
                       None \<Rightarrow> ''# '' @ task_name @ ''\<newline>\<newline>''
                     | Some existing_readme \<Rightarrow> existing_readme)
                    @ ''\<newline>\<newline>## Round '' @ str_int round @ '' Updates\<newline>'' @ brf
                    @ ''\<newline>Updated: '' @ clock w (ticks w)))
       \<and> (readme_srv repo task_name brf w = (Inr (), w'') \<longrightarrow>
            file_at w'' repo ''README.md'' =
              Some (''# '' @ task_name @ ''\<newline>\<newline>Brief:\<newline>'' @ brf
                    @ ''\<newline>\<newline>Updated: '' @ clock w (ticks w)))
       \<and> (faults w = []
            \<and> (case map_of (files r) ''README.md'' of
                  None \<Rightarrow> True | Some c \<Rightarrow> utf8_valid (map of_char c)) \<longrightarrow>
            fst (readme_api repo task_name round brf w) = Inr ())
       \<and> (faults w = [] \<longrightarrow> fst (readme_srv repo task_name brf w) = Inr ())"
proof -
  have "readme_api repo task_name round brf w = (Inr (), w') \<longrightarrow>
            file_at w' repo ''README.md'' =
              Some ((case map_of (files r) ''README.md'' of
                       None \<Rightarrow> ''# '' @ task_name @ ''\<newline>\<newline>''
                     | Some existing_readme \<Rightarrow> existing_readme)
                    @ ''\<newline>\<newline>## Round '' @ str_int round @ '' Updates\<newline>'' @ brf
                    @ ''\<newline>Updated: '' @ clock w (ticks w))"
    using readme_api_Inr [of repo task_name round brf w "()" w' r] assms
    by (auto simp: title_text_def round_section_def split: option.splits)
  moreover have "readme_srv repo task_name brf w = (Inr (), w'') \<longrightarrow>
            file_at w'' repo ''README.md'' =
              Some (''# '' @ task_name @ ''\<newline>\<newline>Brief:\<newline>'' @ brf
                    @ ''\<newline>\<newline>Updated: '' @ clock w (ticks w))"
    using readme_srv_Inr [of repo task_name brf w "()" w'' r] assms
    by (simp add: readme_content_srv_def)
  moreover have "faults w = []
            \<and> (case map_of (files r) ''README.md'' of
                  None \<Rightarrow> True | Some c \<Rightarrow> utf8_valid (map of_char c)) \<longrightarrow>
            fst (readme_api repo task_name round brf w) = Inr ()"
    using readme_api_nominal [of w repo r task_name round brf] assms by blast
  moreover have "faults w = [] \<longrightarrow> fst (readme_srv repo task_name brf w) = Inr ()"
    using readme_srv_nominal [of w repo r task_name brf] assms by blast
  ultimately show ?thesis by blast
qed

theorem readme_policy_witness:
  "map_of (repos demo_account) ''demo'' = Some demo_repo
   \<and> faults demo_account = []
   \<and> fst (readme_api ''demo'' ''demo'' 2 ''second'' demo_account) = Inr ()
   \<and> file_at (snd (readme_api ''demo'' ''demo'' 2 ''second'' demo_account)) ''demo'' ''README.md''
       = Some ''# demo\<newline>\<newline>## Round 2 Updates\<newline>second\<newline>Updated: 2025-10-17T09:00:00''
   \<and> fst (readme_srv ''demo'' ''demo'' ''second'' demo_account) = Inr ()
   \<and> file_at (snd (readme_srv ''demo'' ''demo'' ''second'' demo_account)) ''demo'' ''README.md''
       = Some ''# demo\<newline>\<newline>Brief:\<newline>second\<newline>\<newline>Updated: 2025-10-17T09:00:00''
   \<and> fst (readme_api ''demo'' ''demo'' 2 ''second'' (snd (resolve_repo ''demo'' 1 empty_account)))
       = Inr ()
   \<and> file_at (snd (readme_api ''demo'' ''demo'' 2 ''second''
                      (snd (resolve_repo ''demo'' 1 empty_account)))) ''demo'' ''README.md''
       = Some ''# demo\<newline>\<newline>\<newline>\<newline>## Round 2 Updates\<newline>second\<newline>Updated: 2025-10-17T09:00:00''"
proof -
  let ?a = "readme_api ''demo'' ''demo'' 2 ''second'' demo_account"
  let ?s = "readme_srv ''demo'' ''demo'' ''second'' demo_account"
  let ?w = "snd (resolve_repo ''demo'' 1 empty_account)"
  let ?f = "readme_api ''demo'' ''demo'' 2 ''second'' ?w"
  note th1 = readme_policy [OF demo_repos, of "''demo''" 2 "''second''" "snd ?a" "snd ?s"]
  from th1 demo_nominal demo_readme_valid have a: "fst ?a = Inr ()" and s: "fst ?s = Inr ()"
    by blast+
  then have "?a = (Inr (), snd ?a)" "?s = (Inr (), snd ?s)" by (simp_all add: prod_eq_iff)
  with th1 have
    "file_at (snd ?a) ''demo'' ''README.md''
       = Some ''# demo\<newline>\<newline>## Round 2 Updates\<newline>second\<newline>Updated: 2025-10-17T09:00:00''"
    "file_at (snd ?s) ''demo'' ''README.md''
       = Some ''# demo\<newline>\<newline>Brief:\<newline>second\<newline>\<newline>Updated: 2025-10-17T09:00:00''"
    by (simp_all add: demo_readme demo_clock str_int_2)
  note demo = a s this
  from fresh_repo have fr: "map_of (repos ?w) ''demo'' = Some \<lparr>files = [], is_private = False, commits = []\<rparr>"
    by blast
  note th2 = readme_policy [OF fr, of "''demo''" 2 "''second''" "snd ?f"]
  from th2 fresh_repo have f: "fst ?f = Inr ()" by simp
  then have "?f = (Inr (), snd ?f)" by (simp add: prod_eq_iff)
  with th2 fresh_repo have
    "file_at (snd ?f) ''demo'' ''README.md''
       = Some ''# demo\<newline>\<newline>\<newline>\<newline>## Round 2 Updates\<newline>second\<newline>Updated: 2025-10-17T09:00:00''"
    by (simp add: str_int_2)
  with demo f demo_repos demo_nominal show ?thesis by blast
qed

section \<open>The notification POST\<close>

lemma http_post_proj [simp]:
  "fst (http_post url js hs t w) = endpoint w (posts w)"
  "trace (snd (http_post url js hs t w)) = trace w @ [Http_post url js (json_headers hs) t (endpoint w (posts w))]"
  by (simp_all add: http_post_def Let_def)

lemma posts_sent_append: "posts_sent (xs @ ys) = posts_sent xs @ posts_sent ys"
  by (induction xs rule: posts_sent.induct) simp_all

lemma sleeps_append: "sleeps (xs @ ys) = sleeps xs @ sleeps ys"
  by (induction xs rule: sleeps.induct) simp_all

lemma post_evaluation_loop_trace:
  "\<exists>evs. trace (snd (post_evaluation_loop n d url payload w)) = trace w @ evs
         \<and> list_all (\<lambda>s. s = ([(''Content-Type'', ''application/json'')], None)) (posts_sent evs)"
proof (induction n arbitrary: d w)
  case 0
  then show ?case by simp
next
  case (Suc n)
  let ?w1 = "snd (http_post url payload [(''Content-Type'', ''application/json'')] None w)"
  show ?case
  proof (cases "endpoint w (posts w) = Status 200")
    case True
    then show ?thesis by (simp add: split_beta json_headers_def)
  next
    case False
    from Suc.IH [of "d * 2" "emit (Sleep d) ?w1"] obtain evs where
      "trace (snd (post_evaluation_loop n (d * 2) url payload (emit (Sleep d) ?w1)))
         = trace (emit (Sleep d) ?w1) @ evs"
      "list_all (\<lambda>s. s = ([(''Content-Type'', ''application/json'')], None)) (posts_sent evs)"
      by blast
    with False show ?thesis
      by (simp add: split_beta json_headers_def posts_sent_append)
  qed
qed

text \<open>
  Claim C3. In the blocking dispatcher an attempt succeeds exactly when the answer is
  status 200, and five failing attempts end with the result \<open>False\<close>, nothing being
  raised. The waiting differs from the claim: the loop sleeps after every failed
  attempt, the last one included, so against an endpoint that always answers 500 it
  sleeps 1, 2, 4, 8 and 16 seconds, 31 in all and not 15, around its five POSTs.
\<close>

theorem backoff_sleeps_after_last_attempt:
  "fst (post_evaluation url payload 1 w) = (endpoint w (posts w) = Status 200)
   \<and> fst (post_evaluation url payload 5 empty_account) = False
   \<and> sleeps (trace (snd (post_evaluation url payload 5 empty_account))) = [1, 2, 4, 8, 16]
   \<and> sum_list (sleeps (trace (snd (post_evaluation url payload 5 empty_account)))) = 31
   \<and> length (posts_sent (trace (snd (post_evaluation url payload 5 empty_account)))) = 5"
proof -
  have one: "fst (post_evaluation url payload 1 w) = (endpoint w (posts w) = Status 200)"
    by (simp add: post_evaluation_def split_beta)
  have res: "fst (post_evaluation url payload 5 empty_account) = False"
    by code_simp
  have sl: "sleeps (trace (snd (post_evaluation url payload 5 empty_account))) = [1, 2, 4, 8, 16]"
    by code_simp
  have n: "length (posts_sent (trace (snd (post_evaluation url payload 5 empty_account)))) = 5"
    by code_simp
  from one res sl n show ?thesis by simp
qed

text \<open>
  Claim C8. Every POST of either dispatcher goes out with the header
  \<open>Content-Type: application/json\<close>. The fire-and-forget dispatcher of
  \<^verbatim>\<open>src/server.py\<close> sends its single POST with a timeout of 10 seconds; the
  blocking dispatcher of \<^verbatim>\<open>src/api/server.py\<close> sends every one of its POSTs (at
  least one when \<open>max_retries\<close> is positive) with no timeout at all.
\<close>

theorem blocking_post_has_no_timeout:
  "list_all (\<lambda>s. s = ([(''Content-Type'', ''application/json'')], None))
     (posts_sent (new_events w (snd (post_evaluation url payload max_retries w))))
   \<and> posts_sent (new_events w (snd (post_evaluation url payload (Suc n) w)))
       \<noteq> []
   \<and> posts_sent (new_events w (post_evaluation_async url payload w))
       = [([(''Content-Type'', ''application/json'')], Some 10)]"
proof -
  from post_evaluation_loop_trace [of max_retries 1 url payload w] 
  have a: "list_all (\<lambda>s. s = ([(''Content-Type'', ''application/json'')], None))
     (posts_sent (new_events w (snd (post_evaluation url payload max_retries w))))"
    by (auto simp: post_evaluation_def)
  have b: "posts_sent (new_events w (snd (post_evaluation url payload (Suc n) w))) \<noteq> []"
  proof (cases "endpoint w (posts w) = Status 200")
    case True
    then show ?thesis by (simp add: post_evaluation_def split_beta)
  next
    case False
    let ?w1 = "emit (Sleep 1) (snd (http_post url payload [(''Content-Type'', ''application/json'')] None w))"
    from post_evaluation_loop_trace [of n 2 url payload ?w1] obtain evs where
      "trace (snd (post_evaluation_loop n 2 url payload ?w1)) = trace ?w1 @ evs" by blast
    with False show ?thesis
      by (simp add: post_evaluation_def split_beta posts_sent_append)
  qed
  have c: "posts_sent (new_events w (post_evaluation_async url payload w))
       = [([(''Content-Type'', ''application/json'')], Some 10)]"
    by (simp add: post_evaluation_async_def json_headers_def)
  from a b c show ?thesis by blast
qed

section \<open>Start-up\<close>

text \<open>
  Claim C9, as amended. Both servers fail to start, with a \<open>RuntimeError\<close>, when
  \<open>GITHUB_TOKEN\<close> is absent from the environment. \<^verbatim>\<open>src/api/server.py\<close> takes
  the secret from the variable \<open>SECRET_FORM\<close> and falls back to \<open>Ojal2\<close> when it
  is unset; \<^verbatim>\<open>src/server.py\<close> does not read the environment for the secret: its
  secret is the constant \<open>Ojal2\<close>.
\<close>

theorem startup_configuration:
  "(map_of environ ''GITHUB_TOKEN'' = None \<longrightarrow>
      startup_api environ
        = Inl (RuntimeError ''Set the GITHUB_TOKEN environment variable in Vercel'')
      \<and> startup_srv environ
        = Inl (RuntimeError ''Set the GITHUB_TOKEN environment variable''))
   \<and> (startup_api environ = Inr ga \<longrightarrow>
        SECRET_FORM ga = (case map_of environ ''SECRET_FORM'' of
                            None \<Rightarrow> ''Ojal2'' | Some s \<Rightarrow> s))
   \<and> (startup_srv environ = Inr gs \<longrightarrow> VALID_SECRET gs = ''Ojal2'')"
  by (auto simp: startup_api_def startup_srv_def split: option.splits if_splits)

theorem startup_configuration_witness:
  "map_of [(''SECRET_FORM'', ''s3cret'')] ''GITHUB_TOKEN'' = None
   \<and> startup_api [(''SECRET_FORM'', ''s3cret'')]
       = Inl (RuntimeError ''Set the GITHUB_TOKEN environment variable in Vercel'')
   \<and> startup_srv [(''SECRET_FORM'', ''s3cret'')]
       = Inl (RuntimeError ''Set the GITHUB_TOKEN environment variable'')
   \<and> startup_api [(''GITHUB_TOKEN'', ''ghp_x''), (''SECRET_FORM'', ''s3cret'')]
       = Inr \<lparr>GITHUB_TOKEN_api = ''ghp_x'', SECRET_FORM = ''s3cret''\<rparr>
   \<and> startup_api [(''GITHUB_TOKEN'', ''ghp_x'')]
       = Inr \<lparr>GITHUB_TOKEN_api = ''ghp_x'', SECRET_FORM = ''Ojal2''\<rparr>
   \<and> startup_srv [(''GITHUB_TOKEN'', ''ghp_x''), (''SECRET_FORM'', ''s3cret'')]
       = Inr \<lparr>GITHUB_TOKEN_srv = ''ghp_x'', VALID_SECRET = ''Ojal2''\<rparr>"
  using startup_configuration [of "[(''SECRET_FORM'', ''s3cret'')]"]
        startup_configuration [of "[(''GITHUB_TOKEN'', ''ghp_x''), (''SECRET_FORM'', ''s3cret'')]"
           "\<lparr>GITHUB_TOKEN_api = ''ghp_x'', SECRET_FORM = ''s3cret''\<rparr>"
           "\<lparr>GITHUB_TOKEN_srv = ''ghp_x'', VALID_SECRET = ''Ojal2''\<rparr>"]
  by (simp add: startup_api_def startup_srv_def)

text \<open>
  The claim as stated fails for \<^verbatim>\<open>src/server.py\<close>: with the secret set in the
  environment the server still starts with \<open>Ojal2\<close>, and rejects a submission that
  carries the environment's value.
\<close>

theorem secret_not_read_from_environment:
  "startup_srv [(''GITHUB_TOKEN'', ''ghp_x''), (''SECRET_FORM'', ''s3cret''),
                (''VALID_SECRET'', ''s3cret'')]
     = Inr \<lparr>GITHUB_TOKEN_srv = ''ghp_x'', VALID_SECRET = ''Ojal2''\<rparr>
   \<and> fst (handle_request_srv \<lparr>GITHUB_TOKEN_srv = ''ghp_x'', VALID_SECRET = ''Ojal2''\<rparr>
            (submission ''s3cret'' 1 []) empty_account)
     = Inr \<lparr>status_code = 200, body = [(''error'', JStr ''Invalid secret'')]\<rparr>"
  by (simp add: startup_srv_def handle_request_srv_def submission_def)

end
